theory Spec2Isabelle
  imports Main "HOL-Library.Word"
begin

section \<open>Strings\<close>

text \<open>
  A JavaScript string is a sequence of UTF-16 code units. A code unit is a 16-bit
  word, and a string is the list of its code units; a character outside the Basic
  Multilingual Plane is the two code units of its surrogate pair. The regular
  expressions of the script have no \<open>u\<close> flag and \<open>includes\<close>, \<open>split\<close> and \<open>trim\<close>
  work on code units, so all of them are functions on these lists. \<open>str\<close> gives the
  code units of a string of ASCII characters written as a literal.
\<close>

type_synonym code_unit = "16 word"

type_synonym jstring = "code_unit list"

abbreviation str :: "string \<Rightarrow> jstring" where
  "str s \<equiv> map of_char s"

abbreviation nl :: code_unit where "nl \<equiv> 0x0A"
abbreviation apostrophe :: code_unit where "apostrophe \<equiv> 0x27"
abbreviation dquote :: code_unit where "dquote \<equiv> 0x22"
abbreviation backslash :: code_unit where "backslash \<equiv> 0x5C"
abbreviation hyphen :: code_unit where "hyphen \<equiv> 0x2D"

text \<open>
  The code units \<open>String.prototype.trim\<close> strips: the white space of ECMAScript (TAB,
  VT, FF, the byte order mark U+FEFF and the space separators of Unicode: SP, NBSP,
  U+1680, U+2000 to U+200A, U+202F, U+205F, U+3000) and its line terminators (LF, CR,
  U+2028, U+2029).
\<close>

definition is_space :: "code_unit \<Rightarrow> bool" where
  "is_space c = (c \<in> set [0x09, 0x0A, 0x0B, 0x0C, 0x0D, 0x20, 0xA0, 0x1680,
                            0x2000, 0x2001, 0x2002, 0x2003, 0x2004, 0x2005, 0x2006, 0x2007,
                            0x2008, 0x2009, 0x200A, 0x2028, 0x2029, 0x202F, 0x205F, 0x3000,
                            0xFEFF])"

definition trim :: "jstring \<Rightarrow> jstring" where
  "trim s = rev (dropWhile is_space (rev (dropWhile is_space s)))"

text \<open>The lower-case mapping of an ASCII code unit: A-Z go to a-z, the others stay.\<close>

definition ascii_lower :: "code_unit \<Rightarrow> code_unit" where
  "ascii_lower c = (if 0x41 \<le> c \<and> c \<le> 0x5A then c + 0x20 else c)"

definition is_ascii :: "jstring \<Rightarrow> bool" where
  "is_ascii s = list_all (\<lambda>c. c < 0x80) s"

text \<open>\<open>s.includes(pat)\<close>: \<open>pat\<close> occurs in \<open>s\<close> as a contiguous substring.\<close>

fun str_includes :: "jstring \<Rightarrow> jstring \<Rightarrow> bool" where
  "str_includes [] pat = (pat = [])"
| "str_includes (c # cs) pat = (take (length pat) (c # cs) = pat \<or> str_includes cs pat)"

text \<open>\<open>s.split('-').pop()\<close>: the text after the last hyphen, all of \<open>s\<close> when it has none.\<close>

definition split_pop :: "jstring \<Rightarrow> jstring" where
  "split_pop s = rev (takeWhile (\<lambda>c. c \<noteq> hyphen) (rev s))"

text \<open>\<open>s.replace(/'/g, "''")\<close>: every apostrophe becomes two.\<close>

definition replace_quotes :: "jstring \<Rightarrow> jstring" where
  "replace_quotes s = concat (map (\<lambda>c. if c = apostrophe then [apostrophe, apostrophe] else [c]) s)"

text \<open>The decimal numeral of a non-negative integer, as a template literal renders it.\<close>

fun show_nat :: "nat \<Rightarrow> jstring" where
  "show_nat n = (if n < 10 then [str ''0123456789'' ! n]
                 else show_nat (n div 10) @ [str ''0123456789'' ! (n mod 10)])"

declare show_nat.simps [simp del]

section \<open>Safe filename generation\<close>

text \<open>The characters of the class \<open>[<>:"/\\|?*]\<close>.\<close>

definition is_invalid :: "code_unit \<Rightarrow> bool" where
  "is_invalid c = (c \<in> set (str ''<>:'' @ [dquote] @ str ''/'' @ [backslash] @ str ''|?*''))"

text \<open>
  \<open>.replace(/[<>:"/\\|?*]+/g, '-')\<close>: scanning from the left, every maximal run of
  invalid characters is replaced by one hyphen.
\<close>

function replace_invalid :: "jstring \<Rightarrow> jstring" where
  "replace_invalid [] = []"
| "replace_invalid (c # cs) =
     (if is_invalid c then hyphen # replace_invalid (dropWhile is_invalid cs)
      else c # replace_invalid cs)"
  by pat_completeness auto
termination
  by (relation "measure length") (auto simp: less_Suc_eq_le length_dropWhile_le)

text \<open>
  \<open>.replace(/[-]{2,}/g, '-')\<close>: scanning from the left, every maximal run of two or
  more hyphens is replaced by one hyphen.
\<close>

function replace_hyphens :: "jstring \<Rightarrow> jstring" where
  "replace_hyphens [] = []"
| "replace_hyphens [c] = [c]"
| "replace_hyphens (c # d # cs) =
     (if c = hyphen \<and> d = hyphen
      then hyphen # replace_hyphens (dropWhile (\<lambda>x. x = hyphen) cs)
      else c # replace_hyphens (d # cs))"
  by pat_completeness auto
termination
  by (relation "measure length") (auto simp: less_Suc_eq_le intro!: le_SucI length_dropWhile_le)

section \<open>Feed entries\<close>

text \<open>
  An entry as xml2js delivers it, reduced to what the script reads. A field the script
  reads without optional chaining is \<open>None\<close> when the element is missing, and reading
  it throws a TypeError.
  \<^item> \<open>entry_id\<close>: \<open>entry.id[0]\<close>;
  \<^item> \<open>in_reply_to\<close>: \<open>entry['thr:in-reply-to']\<close> is present;
  \<^item> \<open>title\<close>: \<open>None\<close> when \<open>entry.title\<close> is missing, otherwise \<open>Some\<close> of
    \<open>entry.title[0]['_']\<close>, which is \<open>None\<close> when the title carries no text;
  \<^item> \<open>published\<close>: \<open>entry.published[0]\<close>;
  \<^item> \<open>app_draft\<close>: \<open>entry['app:control']?.[0]?.['app:draft']?.[0]\<close>;
  \<^item> \<open>content\<close>: \<open>entry.content?.[0]?.['_']\<close>;
  \<^item> \<open>category\<close>: \<open>entry.category\<close>, each element with its \<open>$.term\<close>.
\<close>

datatype category = Category (cat_term: jstring)

record entry =
  entry_id :: "jstring option"
  in_reply_to :: bool
  title :: "jstring option option"
  published :: "jstring option"
  app_draft :: "jstring option"
  content :: "jstring option"
  category :: "category list option"

definition kind_post :: jstring where
  "kind_post = (str ''http://schemas.google.com/blogger/2008/kind#post'')"

definition extractTags :: "entry \<Rightarrow> jstring list" where
  "extractTags e =
     (case category e of
        Some cats \<Rightarrow> map cat_term (filter (\<lambda>cat. cat_term cat \<noteq> kind_post) cats)
      | None \<Rightarrow> [])"

section \<open>The environment and the state of a run\<close>

datatype error = ReadError | ParseError | InvalidExport | TypeError | MkdirError | WriteError

text \<open>The result of \<open>parser.parseStringPromise\<close>: a rejection, or the value of
  \<open>result.feed?.entry\<close> (\<open>None\<close> when it is undefined).\<close>

datatype xml_result = Rejected | Parsed "entry list option"

text \<open>
  What the script takes from outside: the file system's answers, the XML parser, the
  libraries sanitize-filename, turndown and path, and the lower-case mappings of Unicode
  that the JavaScript engine has (\<open>unicode_lower\<close>: what \<open>String.prototype.toLowerCase\<close>
  returns for a string that is not all ASCII).
\<close>

record env =
  readFile :: "jstring \<Rightarrow> jstring option"
  parseString :: "jstring \<Rightarrow> xml_result"
  mkdir_ok :: "jstring \<Rightarrow> bool"
  writeFile_ok :: "jstring \<Rightarrow> bool"
  writeFileSync_ok :: "jstring \<Rightarrow> bool"
  sanitize :: "jstring \<Rightarrow> jstring"
  unicode_lower :: "jstring \<Rightarrow> jstring"
  turndown :: "jstring \<Rightarrow> jstring"
  path_join :: "jstring \<Rightarrow> jstring \<Rightarrow> jstring"
  dirname :: jstring

text \<open>
  \<open>String.prototype.toLowerCase\<close>. For a string of ASCII code units the result is
  known without the tables of Unicode: the letters A-Z are lower-cased and every other
  code unit stays. For any other string it is what the engine returns.
\<close>

definition toLowerCase :: "env \<Rightarrow> jstring \<Rightarrow> jstring" where
  "toLowerCase E s = (if is_ascii s then map ascii_lower s else unicode_lower E s)"

text \<open>\<open>getFileName\<close>; \<open>sanitize\<close> is the npm package sanitize-filename.\<close>

definition getFileName :: "env \<Rightarrow> jstring \<Rightarrow> jstring" where
  "getFileName E text =
     toLowerCase E (trim (replace_hyphens (replace_invalid (sanitize E text))))"

text \<open>Calls into the file system, each with its success.\<close>

datatype fs_call =
    ReadFile jstring bool
  | Mkdir jstring bool
  | WriteFile jstring jstring bool
  | WriteFileSync jstring jstring bool

datatype message = Log jstring | Error jstring "error option"

text \<open>
  \<open>posts\<close> is the global \<open>stats.posts\<close> (title and id of each post), \<open>fs\<close> the calls
  into the file system in the order made, \<open>console\<close> the lines printed, and
  \<open>exit_code\<close> the status \<open>process.exit\<close> was called with, if it was.
\<close>

record state =
  posts :: "(jstring \<times> jstring) list"
  fs :: "fs_call list"
  console :: "message list"
  exit_code :: "nat option"

definition init :: state where
  "init = \<lparr>posts = [], fs = [], console = [], exit_code = None\<rparr>"

definition log :: "message \<Rightarrow> state \<Rightarrow> state" where
  "log m st = st\<lparr>console := console st @ [m]\<rparr>"

definition call :: "fs_call \<Rightarrow> state \<Rightarrow> state" where
  "call c st = st\<lparr>fs := fs st @ [c]\<rparr>"

text \<open>The Markdown files on disk after the run: the successful calls of \<open>writeFile\<close>.\<close>

fun written :: "fs_call list \<Rightarrow> (jstring \<times> jstring) list" where
  "written [] = []"
| "written (WriteFile p c True # cs) = (p, c) # written cs"
| "written (_ # cs) = written cs"

text \<open>The summary files written: the successful calls of \<open>writeFileSync\<close>.\<close>

fun summaries :: "fs_call list \<Rightarrow> (jstring \<times> jstring) list" where
  "summaries [] = []"
| "summaries (WriteFileSync p c True # cs) = (p, c) # summaries cs"
| "summaries (_ # cs) = summaries cs"

section \<open>The script\<close>

definition ensureDirectoryExists :: "env \<Rightarrow> jstring \<Rightarrow> state \<Rightarrow> state" where
  "ensureDirectoryExists E dir st =
     (if mkdir_ok E dir then call (Mkdir dir True) st
      else log (Error ((str ''Error creating directory '') @ dir @ (str '':'')) (Some MkdirError))
             (call (Mkdir dir False) st))"

definition writeToFile :: "env \<Rightarrow> jstring \<Rightarrow> jstring \<Rightarrow> state \<Rightarrow> state" where
  "writeToFile E filename text st =
     (if writeFile_ok E filename
      then log (Log ((str ''Successfully written to '') @ filename)) (call (WriteFile filename text True) st)
      else log (Error ((str ''Error writing to '') @ filename @ (str '':'')) (Some WriteError))
             (call (WriteFile filename text False) st))"

definition summary_json :: "nat \<Rightarrow> jstring" where
  "summary_json n = (str ''{'') @ [nl] @ (str ''  '') @ [dquote] @ (str ''totalPosts'') @ [dquote] @ (str '': '')
                     @ show_nat n @ [nl] @ (str ''}'')"

text \<open>\<open>path.join(__dirname, 'migration-summary.json')\<close>.\<close>

definition summary_path :: "env \<Rightarrow> jstring" where
  "summary_path E = path_join E (dirname E) (str ''migration-summary.json'')"

text \<open>\<open>writeSummary\<close>: \<open>writeFileSync\<close> throws when the write fails.\<close>

definition writeSummary :: "env \<Rightarrow> state \<Rightarrow> error option \<times> state" where
  "writeSummary E st =
     (let p = summary_path E;
          text = summary_json (length (posts st))
      in if writeFileSync_ok E p then (None, call (WriteFileSync p text True) st)
         else (Some WriteError, call (WriteFileSync p text False) st))"

text \<open>The filter of \<open>bloggerImport\<close>: \<open>None\<close> when reading \<open>entry.id[0]\<close> throws.\<close>

definition is_post :: "entry \<Rightarrow> bool option" where
  "is_post e =
     (case entry_id e of
        None \<Rightarrow> None
      | Some i \<Rightarrow> Some (str_includes i (str ''.post-'') \<and> \<not> in_reply_to e))"

fun filter_posts :: "entry list \<Rightarrow> entry list option" where
  "filter_posts [] = Some []"
| "filter_posts (e # es) =
     (case is_post e of
        None \<Rightarrow> None
      | Some b \<Rightarrow>
          (case filter_posts es of
             None \<Rightarrow> None
           | Some ps \<Rightarrow> Some (if b then e # ps else ps)))"

text \<open>\<open>entry.title[0]['_']?.replace(/'/g, "''") || 'Untitled'\<close>: the empty string is
  falsy, so an empty title text falls back as a missing one does.\<close>

definition display_title :: "jstring option \<Rightarrow> jstring" where
  "display_title t =
     (case t of
        None \<Rightarrow> (str ''Untitled'')
      | Some s \<Rightarrow> (if replace_quotes s = [] then (str ''Untitled'') else replace_quotes s))"

text \<open>\<open>Array.prototype.join\<close>.\<close>

fun join :: "jstring list \<Rightarrow> jstring \<Rightarrow> jstring" where
  "join [] sep = []"
| "join [x] sep = x"
| "join (x # y # ys) sep = x @ sep @ join (y # ys) sep"

definition tagsField :: "jstring list \<Rightarrow> jstring" where
  "tagsField tags =
     (if tags \<noteq> []
      then (str ''tags: ['') @ join (map (\<lambda>tag. [apostrophe] @ tag @ [apostrophe]) tags) (str '', '')
           @ (str '']'') @ [nl]
      else [])"

definition show_bool :: "bool \<Rightarrow> jstring" where
  "show_bool b = (if b then (str ''true'') else (str ''false''))"

definition fileHeader :: "jstring \<Rightarrow> jstring \<Rightarrow> bool \<Rightarrow> jstring \<Rightarrow> jstring" where
  "fileHeader ttl pub draft tagsF =
     (str ''---'') @ [nl] @ (str ''title: '') @ [apostrophe] @ ttl @ [apostrophe] @ [nl]
     @ (str ''date: '') @ pub @ [nl]
     @ (str ''draft: '') @ show_bool draft @ [nl]
     @ tagsF @ (str ''---'')"

definition unusable :: "jstring \<Rightarrow> bool" where
  "unusable sanitizedTitle = (sanitizedTitle = [] \<or> sanitizedTitle = (str ''-''))"

text \<open>
  The text of a post's file (the body of the loop from \<open>let content = ''\<close> to the
  argument of \<open>writeToFile\<close>): the header, a blank line, and the Markdown that
  turndown makes of the content; a missing or empty content is the empty string.
\<close>

definition file_text :: "env \<Rightarrow> jstring \<Rightarrow> jstring \<Rightarrow> bool \<Rightarrow> entry \<Rightarrow> jstring" where
  "file_text E ttl pub draft e =
     (let html = (case content e of
                    None \<Rightarrow> []
                  | Some c \<Rightarrow> (if c \<noteq> [] then c else []));
          markdown = turndown E html;
          tags = extractTags e
      in fileHeader ttl pub draft (tagsField tags) @ [nl, nl] @ markdown)"

text \<open>\<open>path.join(outputDir, `${sanitizedTitle}.md`)\<close>.\<close>

definition fname :: "env \<Rightarrow> jstring \<Rightarrow> jstring \<Rightarrow> jstring" where
  "fname E outputDir sanitizedTitle = path_join E outputDir (sanitizedTitle @ (str ''.md''))"

text \<open>One iteration of the loop over the posts; \<open>Some err\<close> is an exception thrown.\<close>

definition import_post :: "env \<Rightarrow> jstring \<Rightarrow> entry \<Rightarrow> state \<Rightarrow> error option \<times> state" where
  "import_post E outputDir e st =
     (case title e of
        None \<Rightarrow> (Some TypeError, st)
      | Some t \<Rightarrow>
          (case entry_id e of
             None \<Rightarrow> (Some TypeError, st)
           | Some i \<Rightarrow>
               (let ttl = display_title t;
                    postId = split_pop i;
                    st1 = st\<lparr>posts := posts st @ [(ttl, postId)]\<rparr>
                in case published e of
                     None \<Rightarrow> (Some TypeError, st1)
                   | Some pub \<Rightarrow>
                       (let draft = (app_draft e = Some (str ''yes''));
                            sanitizedTitle = getFileName E ttl;
                            st2 = log (Log ((str ''Sanitized title: '') @ sanitizedTitle)) st1
                        in if unusable sanitizedTitle
                           then (None, log (Error ((str ''Invalid filename for title: '') @ ttl
                                                   @ (str ''. Skipping post.'')) None) st2)
                           else (None, writeToFile E (fname E outputDir sanitizedTitle)
                                         (file_text E ttl pub draft e) st2)))))"

fun import_posts :: "env \<Rightarrow> jstring \<Rightarrow> entry list \<Rightarrow> state \<Rightarrow> error option \<times> state" where
  "import_posts E outputDir [] st = (None, st)"
| "import_posts E outputDir (e # es) st =
     (case import_post E outputDir e st of
        (Some err, st') \<Rightarrow> (Some err, st')
      | (None, st') \<Rightarrow> import_posts E outputDir es st')"

text \<open>The body of the \<open>try\<close> block of \<open>bloggerImport\<close>.\<close>

definition try_import :: "env \<Rightarrow> jstring \<Rightarrow> jstring \<Rightarrow> state \<Rightarrow> error option \<times> state" where
  "try_import E backupXmlFile outputDir st =
     (case readFile E backupXmlFile of
        None \<Rightarrow> (Some ReadError, call (ReadFile backupXmlFile False) st)
      | Some data \<Rightarrow>
          (let st1 = call (ReadFile backupXmlFile True) st
           in case parseString E data of
                Rejected \<Rightarrow> (Some ParseError, st1)
              | Parsed None \<Rightarrow> (Some InvalidExport, st1)
              | Parsed (Some contents) \<Rightarrow>
                  (case filter_posts contents of
                     None \<Rightarrow> (Some TypeError, st1)
                   | Some ps \<Rightarrow>
                       (let st2 = log (Log ((str ''Found '') @ show_nat (length ps) @ (str '' posts''))) st1;
                            st3 = ensureDirectoryExists E outputDir st2
                        in case import_posts E outputDir ps st3 of
                             (Some err, st4) \<Rightarrow> (Some err, st4)
                           | (None, st4) \<Rightarrow> writeSummary E st4))))"

text \<open>\<open>bloggerImport\<close>: the \<open>catch\<close> block logs the exception and exits with status 1.\<close>

definition bloggerImport :: "env \<Rightarrow> jstring \<Rightarrow> jstring \<Rightarrow> state \<Rightarrow> state" where
  "bloggerImport E backupXmlFile outputDir st =
     (case try_import E backupXmlFile outputDir st of
        (None, st') \<Rightarrow> st'
      | (Some err, st') \<Rightarrow>
          (log (Error (str ''Error processing Blogger export:'') (Some err)) st')\<lparr>exit_code := Some 1\<rparr>)"

text \<open>The top level of the script; \<open>argv\<close> is \<open>process.argv\<close>.\<close>

definition usage :: jstring where
  "usage = (str ''Usage: node script.js <BACKUP XML> <OUTPUT DIR> [m|s]'')"

definition script :: "env \<Rightarrow> jstring list \<Rightarrow> state" where
  "script E argv =
     (if length argv < 4 then (log (Log usage) init)\<lparr>exit_code := Some 1\<rparr>
      else bloggerImport E (argv ! 2) (argv ! 3) init)"

section \<open>Notions used in the statements\<close>


text \<open>Reading a front-matter title back: two consecutive apostrophes stand for one.\<close>

fun undouble :: "jstring \<Rightarrow> jstring" where
  "undouble (c # d # cs) =
     (if c = apostrophe \<and> d = apostrophe then apostrophe # undouble cs
      else c # undouble (d # cs))"
| "undouble cs = cs"

definition count_apostrophes :: "jstring \<Rightarrow> nat" where
  "count_apostrophes s = length (filter (\<lambda>c. c = apostrophe) s)"

text \<open>A post the loop body runs through without a TypeError: it has a title element and
  a published element.\<close>

definition complete :: "entry \<Rightarrow> bool" where
  "complete e = (title e \<noteq> None \<and> published e \<noteq> None)"

text \<open>A post whose sanitized title is a usable file name.\<close>

definition usable_post :: "env \<Rightarrow> entry \<Rightarrow> bool" where
  "usable_post E e =
     (case title e of
        None \<Rightarrow> False
      | Some t \<Rightarrow> \<not> unusable (getFileName E (display_title t)))"

text \<open>
  What the loop body makes of a post that has a title element and a published element:
  its display title, its published text, its base file name, and its file (the path and
  the text handed to \<open>writeToFile\<close>). A post gets its file when the base name is usable
  and the write succeeds.
\<close>

definition post_title :: "entry \<Rightarrow> jstring" where
  "post_title e = (case title e of Some t \<Rightarrow> display_title t | None \<Rightarrow> [])"

definition post_published :: "entry \<Rightarrow> jstring" where
  "post_published e = (case published e of Some pub \<Rightarrow> pub | None \<Rightarrow> [])"

definition post_name :: "env \<Rightarrow> entry \<Rightarrow> jstring" where
  "post_name E e = getFileName E (post_title e)"

definition post_file :: "env \<Rightarrow> jstring \<Rightarrow> entry \<Rightarrow> jstring \<times> jstring" where
  "post_file E out e =
     (fname E out (post_name E e),
      file_text E (post_title e) (post_published e) (app_draft e = Some (str ''yes'')) e)"

definition gets_file :: "env \<Rightarrow> jstring \<Rightarrow> entry \<Rightarrow> bool" where
  "gets_file E out e =
     (\<not> unusable (post_name E e) \<and> writeFile_ok E (fname E out (post_name E e)))"

text \<open>An ASCII upper-case letter.\<close>

definition ascii_upper :: "code_unit \<Rightarrow> bool" where
  "ascii_upper c = (0x41 \<le> c \<and> c \<le> 0x5A)"

text \<open>The state in which the loop over the posts starts: the input is read, the count
  of the posts is printed, the output directory is asked for.\<close>

definition before_loop :: "env \<Rightarrow> jstring \<Rightarrow> jstring \<Rightarrow> nat \<Rightarrow> state \<Rightarrow> state" where
  "before_loop E f out n st =
     ensureDirectoryExists E out
       (log (Log ((str ''Found '') @ show_nat n @ (str '' posts''))) (call (ReadFile f True) st))"

section \<open>An environment and entries for the examples\<close>

text \<open>
  Modelled from the spec: the package sanitize-filename is not under src/. The spec's
  Filename Sanitizer begins "Strip characters illegal on common filesystems", and its
  invalid set is the one of \<open>is_invalid\<close>. The examples below run with this function;
  no theorem about the script depends on it.
\<close>

definition strip_illegal :: "jstring \<Rightarrow> jstring" where
  "strip_illegal s = filter (\<lambda>c. \<not> is_invalid c) s"

text \<open>
  The input file \<open>backup.xml\<close> parses to the given feed, every call into the file
  system succeeds, turndown returns plain text as it is, and \<open>path.join\<close> puts a slash
  between its two arguments. Outside ASCII the lower-casing of the examples keeps every
  code unit: it is \<open>String.prototype.toLowerCase\<close> on the strings whose characters
  outside ASCII have no lower-case mapping, the only ones the examples use.
\<close>

definition example_env :: "entry list \<Rightarrow> env" where
  "example_env feed =
     \<lparr>readFile = (\<lambda>p. if p = (str ''backup.xml'') then Some (str ''<feed/>'') else None),
      parseString = (\<lambda>d. Parsed (Some feed)),
      mkdir_ok = (\<lambda>p. True),
      writeFile_ok = (\<lambda>p. True),
      writeFileSync_ok = (\<lambda>p. True),
      sanitize = strip_illegal,
      unicode_lower = map ascii_lower,
      turndown = (\<lambda>s. s),
      path_join = (\<lambda>d f. d @ (str ''/'') @ f),
      dirname = (str ''/app'')\<rparr>"

definition example_argv :: "jstring list" where
  "example_argv = [(str ''node''), (str ''script.js''), (str ''backup.xml''), (str ''out'')]"

text \<open>An entry with the given identifier and title text, published, without reply-to
  reference, draft flag, content or categories.\<close>

definition example_entry :: "jstring \<Rightarrow> jstring \<Rightarrow> entry" where
  "example_entry i t =
     \<lparr>entry_id = Some i, in_reply_to = False, title = Some (Some t),
      published = Some (str ''2024-05-06T07:08:09.000Z''), app_draft = None, content = None,
      category = None\<rparr>"


text \<open>
  The package sanitize-filename also truncates its result to 255 bytes, which are 255
  code units of an ASCII string. A title of 255 letters and an apostrophe shows it.
\<close>

definition truncating_env :: "entry list \<Rightarrow> env" where
  "truncating_env feed = (example_env feed)\<lparr>sanitize := (\<lambda>s. take 255 (strip_illegal s))\<rparr>"

definition long_title :: jstring where
  "long_title = replicate 255 (0x61 :: code_unit) @ [apostrophe]"

text \<open>A draft with a body and three categories, and a feed of it and a post with neither
  body nor categories.\<close>

definition example_draft :: entry where
  "example_draft =
     (example_entry (str ''blog-1.post-5'') (str ''Trip''))
       \<lparr>app_draft := Some (str ''yes''), content := Some (str ''Hello''),
        category := Some [Category kind_post, Category (str ''travel''), Category (str ''food'')]\<rparr>"

definition example_feed :: "entry list" where
  "example_feed = [example_draft, example_entry (str ''blog-1.post-8'') (str ''Empty'')]"

section \<open>Strings: lemmas\<close>



lemma set_replace_hyphens: "set (replace_hyphens s) \<subseteq> set s"
proof (induction s rule: replace_hyphens.induct)
  case (3 c d cs)
  have "set (dropWhile (\<lambda>x. x = hyphen) cs) \<subseteq> set cs"
    by (simp add: set_dropWhileD subsetI)
  with 3 show ?case by auto
qed simp_all






lemma set_trim: "set (trim s) \<subseteq> set s"
proof
  fix x assume "x \<in> set (trim s)"
  then have "x \<in> set (dropWhile is_space (rev (dropWhile is_space s)))"
    by (simp add: trim_def)
  then have "x \<in> set (rev (dropWhile is_space s))" by (rule set_dropWhileD)
  then have "x \<in> set (dropWhile is_space s)" by simp
  then show "x \<in> set s" by (rule set_dropWhileD)
qed


lemma replace_quotes_simps [simp]:
  "replace_quotes [] = []"
  "replace_quotes (c # cs) = (if c = apostrophe then [apostrophe, apostrophe] else [c]) @ replace_quotes cs"
  by (simp_all add: replace_quotes_def)

lemma replace_quotes_append: "replace_quotes (xs @ ys) = replace_quotes xs @ replace_quotes ys"
  by (simp add: replace_quotes_def)

lemma replace_quotes_Nil_iff [simp]: "replace_quotes s = [] \<longleftrightarrow> s = []"
  by (cases s) simp_all

lemma undouble_Cons_other: "c \<noteq> apostrophe \<Longrightarrow> undouble (c # cs) = c # undouble cs"
  by (cases cs) simp_all

lemma undouble_replace_quotes: "undouble (replace_quotes s) = s"
  by (induction s) (simp_all add: undouble_Cons_other)

lemma count_replace_quotes: "count_apostrophes (replace_quotes s) = 2 * count_apostrophes s"
  by (induction s) (simp_all add: count_apostrophes_def)

lemma others_replace_quotes:
  "filter (\<lambda>c. c \<noteq> apostrophe) (replace_quotes s) = filter (\<lambda>c. c \<noteq> apostrophe) s"
  by (induction s) simp_all

text \<open>No step of \<open>getFileName\<close> adds or removes an apostrophe.\<close>

lemma count_dropWhile:
  "\<not> P apostrophe \<Longrightarrow> count_apostrophes (dropWhile P s) = count_apostrophes s"
  by (induction s) (auto simp: count_apostrophes_def)

lemma count_replace_invalid: "count_apostrophes (replace_invalid s) = count_apostrophes s"
proof (induction s rule: replace_invalid.induct)
  case 1
  show ?case by simp
next
  case (2 c cs)
  have na: "\<not> is_invalid apostrophe" by (simp add: is_invalid_def)
  show ?case
  proof (cases "is_invalid c")
    case True
    then have "c \<noteq> apostrophe" using na by auto
    moreover have "count_apostrophes (replace_invalid (dropWhile is_invalid cs)) = count_apostrophes cs"
      using 2 True count_dropWhile[of is_invalid cs] na by simp
    ultimately show ?thesis using True by (simp add: count_apostrophes_def)
  next
    case False
    then show ?thesis using 2 by (simp add: count_apostrophes_def)
  qed
qed

lemma count_replace_hyphens: "count_apostrophes (replace_hyphens s) = count_apostrophes s"
proof (induction s rule: replace_hyphens.induct)
  case 1
  show ?case by simp
next
  case (2 c)
  show ?case by simp
next
  case (3 c d cs)
  show ?case
  proof (cases "c = hyphen \<and> d = hyphen")
    case True
    have "count_apostrophes (replace_hyphens (dropWhile (\<lambda>x. x = hyphen) cs)) = count_apostrophes cs"
      using 3 True count_dropWhile[of "\<lambda>x. x = hyphen" cs] by simp
    then show ?thesis using True by (simp add: count_apostrophes_def)
  next
    case False
    then have "count_apostrophes (replace_hyphens (d # cs)) = count_apostrophes (d # cs)"
      using 3 by simp
    moreover have "replace_hyphens (c # d # cs) = c # replace_hyphens (d # cs)"
      using False by auto
    ultimately show ?thesis by (simp add: count_apostrophes_def)
  qed
qed

lemma count_rev: "count_apostrophes (rev s) = count_apostrophes s"
  by (simp add: count_apostrophes_def flip: rev_filter)

lemma count_trim: "count_apostrophes (trim s) = count_apostrophes s"
proof -
  have "\<not> is_space apostrophe" by (simp add: is_space_def)
  then show ?thesis by (simp add: trim_def count_dropWhile count_rev)
qed


text \<open>The lower-casing of ASCII strings.\<close>

lemma ascii_upper_unat: "ascii_upper c \<longleftrightarrow> 65 \<le> unat c \<and> unat c \<le> 90"
  by (simp add: ascii_upper_def word_le_nat_alt)

lemma unat_ascii_lower:
  "unat (ascii_lower c) = (if ascii_upper c then unat c + 32 else unat c)"
proof (cases "ascii_upper c")
  case True
  then have "unat c \<le> 90" by (simp add: ascii_upper_unat)
  then have "unat (c + 0x20) = unat c + 32"
    by (simp add: unat_word_ariths)
  with True show ?thesis by (simp add: ascii_lower_def ascii_upper_def)
next
  case False
  then show ?thesis by (auto simp: ascii_lower_def ascii_upper_def)
qed


lemma ascii_lower_small: "ascii_lower c = x \<Longrightarrow> x < 0x61 \<Longrightarrow> c = x"
proof -
  assume a: "ascii_lower c = x" "x < 0x61"
  then have "unat (ascii_lower c) = unat x" "unat x < 97"
    by (simp_all add: word_less_nat_alt)
  then have "unat c = unat x"
    by (auto simp: unat_ascii_lower ascii_upper_unat split: if_splits)
  then show ?thesis by (simp add: word_unat_eq_iff)
qed

lemma ascii_lower_range: "ascii_upper c \<Longrightarrow> 0x61 \<le> ascii_lower c \<and> ascii_lower c \<le> 0x7A"
  by (auto simp: word_le_nat_alt unat_ascii_lower ascii_upper_unat)



lemma ascii_lower_apostrophe: "ascii_lower c = apostrophe \<longleftrightarrow> c = apostrophe"
proof
  assume "ascii_lower c = apostrophe"
  then show "c = apostrophe" by (rule ascii_lower_small) simp
next
  assume "c = apostrophe"
  then show "ascii_lower c = apostrophe" by (simp add: ascii_lower_def)
qed







lemma count_map_ascii_lower: "count_apostrophes (map ascii_lower s) = count_apostrophes s"
  unfolding count_apostrophes_def
  by (induction s) (simp_all add: ascii_lower_apostrophe)

lemma toLowerCase_ascii: "is_ascii s \<Longrightarrow> toLowerCase E s = map ascii_lower s"
  by (simp add: toLowerCase_def)

text \<open>The string that \<open>getFileName\<close> lower-cases.\<close>

lemma is_ascii_subset: "set s \<subseteq> set t \<Longrightarrow> is_ascii t \<Longrightarrow> is_ascii s"
  by (auto simp: is_ascii_def list_all_iff)

lemma replace_invalid_ascii: "is_ascii s \<Longrightarrow> is_ascii (replace_invalid s)"
proof (induction s rule: replace_invalid.induct)
  case 1
  show ?case by (simp add: is_ascii_def)
next
  case (2 c cs)
  have d: "is_ascii (dropWhile is_invalid cs)"
    using 2(3) is_ascii_subset[of "dropWhile is_invalid cs" cs] set_dropWhileD[of _ is_invalid cs]
    by (auto simp: is_ascii_def)
  show ?case
  proof (cases "is_invalid c")
    case True
    then have "is_ascii (replace_invalid (dropWhile is_invalid cs))" using 2(1) d by simp
    then show ?thesis using True by (simp add: is_ascii_def)
  next
    case False
    then have "is_ascii (replace_invalid cs)" using 2(2,3) by (simp add: is_ascii_def)
    then show ?thesis using False 2(3) by (simp add: is_ascii_def)
  qed
qed



lemma cleaned_ascii: "is_ascii s \<Longrightarrow> is_ascii (trim (replace_hyphens (replace_invalid s)))"
proof -
  assume "is_ascii s"
  then have "is_ascii (replace_invalid s)" by (rule replace_invalid_ascii)
  moreover have "set (trim (replace_hyphens (replace_invalid s))) \<subseteq> set (replace_invalid s)"
    using set_trim set_replace_hyphens by blast
  ultimately show ?thesis using is_ascii_subset by blast
qed

lemma count_cleaned:
  "count_apostrophes (trim (replace_hyphens (replace_invalid s))) = count_apostrophes s"
  by (simp add: count_trim count_replace_hyphens count_replace_invalid)

section \<open>The state: lemmas\<close>

lemma written_append: "written (xs @ ys) = written xs @ written ys"
  by (induction xs rule: written.induct) simp_all

lemma summaries_append: "summaries (xs @ ys) = summaries xs @ summaries ys"
  by (induction xs rule: summaries.induct) simp_all

lemma log_simps [simp]:
  "posts (log m st) = posts st" "fs (log m st) = fs st"
  "console (log m st) = console st @ [m]" "exit_code (log m st) = exit_code st"
  by (simp_all add: log_def)

lemma call_simps [simp]:
  "posts (call c st) = posts st" "fs (call c st) = fs st @ [c]"
  "console (call c st) = console st" "exit_code (call c st) = exit_code st"
  by (simp_all add: call_def)

lemma ensureDirectoryExists_simps [simp]:
  "posts (ensureDirectoryExists E dir st) = posts st"
  "written (fs (ensureDirectoryExists E dir st)) = written (fs st)"
  "summaries (fs (ensureDirectoryExists E dir st)) = summaries (fs st)"
  "exit_code (ensureDirectoryExists E dir st) = exit_code st"
  by (simp_all add: ensureDirectoryExists_def written_append summaries_append)

lemma writeToFile_simps [simp]:
  "posts (writeToFile E p c st) = posts st"
  "summaries (fs (writeToFile E p c st)) = summaries (fs st)"
  "exit_code (writeToFile E p c st) = exit_code st"
  by (simp_all add: writeToFile_def summaries_append)

lemma fs_writeToFile:
  "fs (writeToFile E p c st) = fs st @ [WriteFile p c (writeFile_ok E p)]"
  by (simp add: writeToFile_def)

lemma written_writeToFile [simp]:
  "written (fs (writeToFile E p c st)) =
     written (fs st) @ (if writeFile_ok E p then [(p, c)] else [])"
  by (simp add: writeToFile_def written_append)

lemma writeSummary_simps [simp]:
  "posts (snd (writeSummary E st)) = posts st"
  "written (fs (snd (writeSummary E st))) = written (fs st)"
  "exit_code (snd (writeSummary E st)) = exit_code st"
  by (simp_all add: writeSummary_def Let_def written_append)

lemma summaries_writeSummary:
  "summaries (fs (snd (writeSummary E st))) =
     summaries (fs st) @ (if writeFileSync_ok E (summary_path E)
                          then [(summary_path E, summary_json (length (posts st)))] else [])"
  by (simp add: writeSummary_def Let_def summaries_append)

lemma fst_writeSummary:
  "fst (writeSummary E st) = (if writeFileSync_ok E (summary_path E) then None else Some WriteError)"
  by (simp add: writeSummary_def Let_def)

text \<open>The loop body, case by case.\<close>

lemma import_post_skip:
  assumes "title e = Some t" "entry_id e = Some i" "published e = Some pub"
    and "unusable (getFileName E (display_title t))"
  shows "import_post E out e st =
     (None, log (Error ((str ''Invalid filename for title: '') @ display_title t @ (str ''. Skipping post.'')) None)
              (log (Log ((str ''Sanitized title: '') @ getFileName E (display_title t)))
                 (st\<lparr>posts := posts st @ [(display_title t, split_pop i)]\<rparr>)))"
  using assms by (simp add: import_post_def Let_def)

lemma import_post_write:
  assumes "title e = Some t" "entry_id e = Some i" "published e = Some pub"
    and "\<not> unusable (getFileName E (display_title t))"
  shows "import_post E out e st =
     (None, writeToFile E (fname E out (getFileName E (display_title t)))
              (file_text E (display_title t) pub (app_draft e = Some (str ''yes'')) e)
              (log (Log ((str ''Sanitized title: '') @ getFileName E (display_title t)))
                 (st\<lparr>posts := posts st @ [(display_title t, split_pop i)]\<rparr>)))"
  using assms by (simp add: import_post_def Let_def)

lemma import_post_summaries [simp]:
  "summaries (fs (snd (import_post E out e st))) = summaries (fs st)"
  by (simp add: import_post_def Let_def split: option.splits)

lemma import_post_exit [simp]:
  "exit_code (snd (import_post E out e st)) = exit_code st"
  by (simp add: import_post_def Let_def split: option.splits)

lemma import_post_posts:
  "fst (import_post E out e st) = None \<Longrightarrow>
     length (posts (snd (import_post E out e st))) = Suc (length (posts st))"
  by (simp add: import_post_def Let_def split: option.splits if_splits)

lemma import_post_complete:
  "complete e \<Longrightarrow> entry_id e \<noteq> None \<Longrightarrow> fst (import_post E out e st) = None"
  by (auto simp: import_post_def Let_def complete_def split: option.splits)

text \<open>What one iteration adds to the files written: nothing, or the file of the post.\<close>

lemma import_post_written:
  "written (fs (snd (import_post E out e st))) = written (fs st) \<or>
   (\<exists>t pub. title e = Some t \<and> published e = Some pub
      \<and> \<not> unusable (getFileName E (display_title t))
      \<and> writeFile_ok E (fname E out (getFileName E (display_title t)))
      \<and> written (fs (snd (import_post E out e st))) =
          written (fs st) @ [(fname E out (getFileName E (display_title t)),
                              file_text E (display_title t) pub (app_draft e = Some (str ''yes'')) e)])"
  by (auto simp: import_post_def Let_def split: option.splits)

lemma before_loop_simps [simp]:
  "posts (before_loop E f out n st) = posts st"
  "written (fs (before_loop E f out n st)) = written (fs st)"
  "summaries (fs (before_loop E f out n st)) = summaries (fs st)"
  "exit_code (before_loop E f out n st) = exit_code st"
  by (simp_all add: before_loop_def written_append summaries_append)

lemma import_posts_summaries [simp]:
  "summaries (fs (snd (import_posts E out ps st))) = summaries (fs st)"
proof (induction ps arbitrary: st)
  case Nil
  show ?case by simp
next
  case (Cons e es)
  obtain r st' where r: "import_post E out e st = (r, st')" by (cases "import_post E out e st")
  have "summaries (fs st') = summaries (fs st)"
    using import_post_summaries[of E out e st] r by simp
  with Cons r show ?case by (cases r) simp_all
qed

lemma import_posts_exit [simp]:
  "exit_code (snd (import_posts E out ps st)) = exit_code st"
proof (induction ps arbitrary: st)
  case Nil
  show ?case by simp
next
  case (Cons e es)
  obtain r st' where r: "import_post E out e st = (r, st')" by (cases "import_post E out e st")
  have "exit_code st' = exit_code st"
    using import_post_exit[of E out e st] r by simp
  with Cons r show ?case by (cases r) simp_all
qed

lemma import_posts_posts:
  "fst (import_posts E out ps st) = None \<Longrightarrow>
     length (posts (snd (import_posts E out ps st))) = length (posts st) + length ps"
proof (induction ps arbitrary: st)
  case Nil
  show ?case by simp
next
  case (Cons e es)
  obtain r st' where r: "import_post E out e st = (r, st')" by (cases "import_post E out e st")
  show ?case
  proof (cases r)
    case None
    have "length (posts st') = Suc (length (posts st))"
      using import_post_posts[of E out e st] r None by simp
    moreover have "fst (import_posts E out es st') = None"
      using Cons.prems r None by simp
    ultimately show ?thesis using Cons.IH[of st'] r None by simp
  next
    case (Some err)
    with Cons.prems r show ?thesis by simp
  qed
qed

lemma import_posts_complete:
  "list_all (\<lambda>e. complete e \<and> entry_id e \<noteq> None) ps \<Longrightarrow> fst (import_posts E out ps st) = None"
proof (induction ps arbitrary: st)
  case Nil
  show ?case by simp
next
  case (Cons e es)
  obtain r st' where r: "import_post E out e st = (r, st')" by (cases "import_post E out e st")
  have "r = None" using import_post_complete[of e E out st] Cons.prems r by simp
  with Cons r show ?case by simp
qed

lemma usable_post_iff:
  "title e = Some t \<Longrightarrow> usable_post E e = (\<not> unusable (getFileName E (display_title t)))"
  by (simp add: usable_post_def)

lemma import_posts_written_count:
  "length (written (fs (snd (import_posts E out ps st))))
     \<le> length (written (fs st)) + length (filter (usable_post E) ps)"
proof (induction ps arbitrary: st)
  case Nil
  show ?case by simp
next
  case (Cons e es)
  obtain r st' where r: "import_post E out e st = (r, st')" by (cases "import_post E out e st")
  have step: "length (written (fs st')) \<le> length (written (fs st)) + (if usable_post E e then 1 else 0)"
    using import_post_written[of E out e st] r by (auto simp: usable_post_iff)
  show ?case
  proof (cases r)
    case None
    have "length (written (fs (snd (import_posts E out es st'))))
            \<le> length (written (fs st')) + length (filter (usable_post E) es)"
      by (rule Cons.IH)
    with step r None show ?thesis by (auto split: if_splits)
  next
    case (Some err)
    with step r show ?thesis by (auto split: if_splits)
  qed
qed

lemma import_posts_written_inv:
  assumes Q: "\<And>e t pub. e \<in> set ps \<Longrightarrow> title e = Some t \<Longrightarrow> published e = Some pub \<Longrightarrow>
                \<not> unusable (getFileName E (display_title t)) \<Longrightarrow>
                Q (fname E out (getFileName E (display_title t)),
                   file_text E (display_title t) pub (app_draft e = Some (str ''yes'')) e)"
    and st: "list_all Q (written (fs st))"
  shows "list_all Q (written (fs (snd (import_posts E out ps st))))"
  using assms
proof (induction ps arbitrary: st)
  case Nil
  then show ?case by simp
next
  case (Cons e es)
  obtain r st' where r: "import_post E out e st = (r, st')" by (cases "import_post E out e st")
  have st': "list_all Q (written (fs st'))"
    using import_post_written[of E out e st] r Cons.prems(1)[of e] Cons.prems(2) by auto
  show ?case
  proof (cases r)
    case None
    have "list_all Q (written (fs (snd (import_posts E out es st'))))"
      using Cons.IH[of st'] Cons.prems(1) st' by simp
    with r None show ?thesis by simp
  next
    case (Some err)
    with st' r show ?thesis by simp
  qed
qed

text \<open>The filter.\<close>

lemma filter_posts_Some:
  "filter_posts es = Some ps \<Longrightarrow> ps = filter (\<lambda>e. is_post e = Some True) es"
proof (induction es arbitrary: ps)
  case Nil
  then show ?case by simp
next
  case (Cons e es)
  then show ?case by (auto split: option.splits if_splits)
qed

lemma filter_posts_ids:
  "filter_posts es = Some ps \<Longrightarrow> list_all (\<lambda>e. entry_id e \<noteq> None) ps"
  by (auto dest!: filter_posts_Some simp: list_all_iff is_post_def split: option.splits)

text \<open>The run, once the feed is read and filtered.\<close>

lemma try_import_run:
  assumes "readFile E f = Some d" "parseString E d = Parsed (Some contents)"
    and "filter_posts contents = Some ps"
  shows "try_import E f out st =
     (case import_posts E out ps (before_loop E f out (length ps) st) of
        (Some err, st4) \<Rightarrow> (Some err, st4)
      | (None, st4) \<Rightarrow> writeSummary E st4)"
  using assms by (simp add: try_import_def before_loop_def Let_def)

lemma bloggerImport_written:
  assumes "readFile E f = Some d" "parseString E d = Parsed (Some contents)"
    and "filter_posts contents = Some ps"
  shows "written (fs (bloggerImport E f out st)) =
     written (fs (snd (import_posts E out ps (before_loop E f out (length ps) st))))"
proof -
  obtain r st4 where r: "import_posts E out ps (before_loop E f out (length ps) st) = (r, st4)"
    by (cases "import_posts E out ps (before_loop E f out (length ps) st)")
  obtain r' st5 where w: "writeSummary E st4 = (r', st5)" by (cases "writeSummary E st4")
  have "written (fs st5) = written (fs st4)" using writeSummary_simps(2)[of E st4] w by simp
  then show ?thesis
    using try_import_run[OF assms, of out st] r w
    by (cases r; cases r') (simp_all add: bloggerImport_def)
qed

lemma bloggerImport_summaries:
  assumes "readFile E f = Some d" "parseString E d = Parsed (Some contents)"
    and "filter_posts contents = Some ps"
  shows "summaries (fs (bloggerImport E f out st)) =
     summaries (fs st) @
       (if fst (import_posts E out ps (before_loop E f out (length ps) st)) = None
           \<and> writeFileSync_ok E (summary_path E)
        then [(summary_path E, summary_json (length (posts st) + length ps))] else [])"
proof -
  obtain r st4 where r: "import_posts E out ps (before_loop E f out (length ps) st) = (r, st4)"
    by (cases "import_posts E out ps (before_loop E f out (length ps) st)")
  obtain r' st5 where w: "writeSummary E st4 = (r', st5)" by (cases "writeSummary E st4")
  have s4: "summaries (fs st4) = summaries (fs st)"
    using import_posts_summaries[of E out ps "before_loop E f out (length ps) st"] r by simp
  show ?thesis
  proof (cases r)
    case (Some err)
    with r s4 show ?thesis
      using try_import_run[OF assms, of out st] by (simp add: bloggerImport_def)
  next
    case None
    have len: "length (posts st4) = length (posts st) + length ps"
      using import_posts_posts[of E out ps "before_loop E f out (length ps) st"] r None by simp
    have s5: "summaries (fs st5) = summaries (fs st4) @
        (if writeFileSync_ok E (summary_path E)
         then [(summary_path E, summary_json (length (posts st4)))] else [])"
      using summaries_writeSummary[of E st4] w by simp
    show ?thesis
      using try_import_run[OF assms, of out st] r None w s4 s5 len
      by (cases r') (simp_all add: bloggerImport_def)
  qed
qed

lemma bloggerImport_exit:
  assumes "readFile E f = Some d" "parseString E d = Parsed (Some contents)"
    and "filter_posts contents = Some ps"
  shows "exit_code (bloggerImport E f out st) =
       (if fst (import_posts E out ps (before_loop E f out (length ps) st)) = None
           \<and> writeFileSync_ok E (summary_path E)
        then exit_code st else Some 1)"
proof -
  obtain r st4 where r: "import_posts E out ps (before_loop E f out (length ps) st) = (r, st4)"
    by (cases "import_posts E out ps (before_loop E f out (length ps) st)")
  obtain r' st5 where w: "writeSummary E st4 = (r', st5)" by (cases "writeSummary E st4")
  have e4: "exit_code st4 = exit_code st"
    using import_posts_exit[of E out ps "before_loop E f out (length ps) st"] r by simp
  have e5: "exit_code st5 = exit_code st4" using writeSummary_simps(3)[of E st4] w by simp
  have r': "r' = (if writeFileSync_ok E (summary_path E) then None else Some WriteError)"
    using fst_writeSummary[of E st4] w by simp
  show ?thesis
    using try_import_run[OF assms, of out st] r w e4 e5 r'
    by (cases r; cases r') (simp_all add: bloggerImport_def split: if_splits)
qed

lemma file_text_title:
  "\<exists>rest. file_text E ttl pub d e =
     (str ''---'') @ [nl] @ (str ''title: '') @ [apostrophe] @ ttl @ [apostrophe, nl] @ rest"
  by (simp add: file_text_def fileHeader_def Let_def)

lemma import_posts_skip:
  assumes "title e = Some t" "entry_id e = Some i" "published e = Some pub"
    and "unusable (getFileName E (display_title t))"
  shows "\<exists>st'. import_post E out e st = (None, st') \<and> fs st' = fs st
           \<and> exit_code st' = exit_code st
           \<and> console st' = console st
                @ [Log ((str ''Sanitized title: '') @ getFileName E (display_title t)),
                   Error ((str ''Invalid filename for title: '') @ display_title t @ (str ''. Skipping post.'')) None]
           \<and> import_posts E out (e # es) st = import_posts E out es st'"
  using import_post_skip[OF assms, of out st] by simp

lemma import_posts_write_failure:
  assumes "title e = Some t" "entry_id e = Some i" "published e = Some pub"
    and "\<not> unusable (getFileName E (display_title t))"
    and "\<not> writeFile_ok E (fname E out (getFileName E (display_title t)))"
  shows "\<exists>st'. import_post E out e st = (None, st') \<and> written (fs st') = written (fs st)
           \<and> exit_code st' = exit_code st
           \<and> console st' = console st
                @ [Log ((str ''Sanitized title: '') @ getFileName E (display_title t)),
                   Error ((str ''Error writing to '') @ fname E out (getFileName E (display_title t)) @ (str '':''))
                     (Some WriteError)]
           \<and> import_posts E out (e # es) st = import_posts E out es st'"
  using import_post_write[OF assms(1-4), of out st] assms(5)
  by (simp add: writeToFile_def written_append)

lemma bloggerImport_abort:
  assumes "try_import E f out st = (Some err, st')"
  shows "bloggerImport E f out st = (log (Error (str ''Error processing Blogger export:'') (Some err)) st')\<lparr>exit_code := Some 1\<rparr>"
  using assms by (simp add: bloggerImport_def)

lemma file_text_format:
  "file_text E ttl pub d e =
     (str ''---'') @ [nl] @ (str ''title: '') @ [apostrophe] @ ttl @ [apostrophe, nl]
     @ (str ''date: '') @ pub @ [nl]
     @ (str ''draft: '') @ (if d then (str ''true'') else (str ''false'')) @ [nl]
     @ (if extractTags e = [] then []
        else (str ''tags: ['') @ join (map (\<lambda>tag. [apostrophe] @ tag @ [apostrophe]) (extractTags e)) (str '', '')
             @ (str '']'') @ [nl])
     @ (str ''---'') @ [nl, nl]
     @ turndown E (case content e of None \<Rightarrow> [] | Some h \<Rightarrow> h)"
proof -
  have "(case content e of None \<Rightarrow> [] | Some c \<Rightarrow> if c \<noteq> [] then c else [])
      = (case content e of None \<Rightarrow> [] | Some h \<Rightarrow> h)"
    by (simp split: option.splits)
  then show ?thesis
    by (simp add: file_text_def fileHeader_def tagsField_def show_bool_def Let_def)
qed

lemma bloggerImport_posts:
  assumes "readFile E f = Some d" "parseString E d = Parsed (Some contents)"
    and "filter_posts contents = Some ps"
  shows "posts (bloggerImport E f out st) =
     posts (snd (import_posts E out ps (before_loop E f out (length ps) st)))"
proof -
  obtain r st4 where r: "import_posts E out ps (before_loop E f out (length ps) st) = (r, st4)"
    by (cases "import_posts E out ps (before_loop E f out (length ps) st)")
  obtain r' st5 where w: "writeSummary E st4 = (r', st5)" by (cases "writeSummary E st4")
  have "posts st5 = posts st4" using writeSummary_simps(1)[of E st4] w by simp
  then show ?thesis
    using try_import_run[OF assms, of out st] r w
    by (cases r; cases r') (simp_all add: bloggerImport_def)
qed

lemma summary_json_1:
  "summary_json 1 = (str ''{'') @ [nl] @ (str ''  '') @ [dquote] @ (str ''totalPosts'') @ [dquote] @ (str '': 1'') @ [nl] @ (str ''}'')"
  by (simp add: summary_json_def show_nat.simps)

text \<open>The files a loop over posts writes, exactly.\<close>

lemma import_post_incomplete:
  "\<not> complete e \<Longrightarrow> \<exists>err st'. import_post E out e st = (Some err, st') \<and> written (fs st') = written (fs st)"
  by (auto simp: import_post_def Let_def complete_def split: option.splits)

lemma import_post_complete_written:
  assumes "complete e" and "entry_id e \<noteq> None"
  shows "\<exists>st'. import_post E out e st = (None, st')
           \<and> written (fs st') = written (fs st) @ (if gets_file E out e then [post_file E out e] else [])"
proof -
  from assms obtain t pub i where e: "title e = Some t" "published e = Some pub" "entry_id e = Some i"
    by (auto simp: complete_def)
  have n: "post_name E e = getFileName E (display_title t)"
    and pf: "post_file E out e = (fname E out (getFileName E (display_title t)),
               file_text E (display_title t) pub (app_draft e = Some (str ''yes'')) e)"
    using e by (simp_all add: post_name_def post_file_def post_title_def post_published_def)
  show ?thesis
  proof (cases "unusable (getFileName E (display_title t))")
    case True
    then show ?thesis
      using import_post_skip[OF e(1) e(3) e(2) True, of out st] n by (simp add: gets_file_def)
  next
    case False
    then show ?thesis
      using import_post_write[OF e(1) e(3) e(2) False, of out st] n pf by (simp add: gets_file_def)
  qed
qed

lemma import_posts_exact:
  "list_all (\<lambda>e. entry_id e \<noteq> None) ps \<Longrightarrow>
     written (fs (snd (import_posts E out ps st))) =
       written (fs st) @ map (post_file E out) (filter (gets_file E out) (takeWhile complete ps))"
proof (induction ps arbitrary: st)
  case Nil
  show ?case by simp
next
  case (Cons e es)
  show ?case
  proof (cases "complete e")
    case True
    then obtain st' where s: "import_post E out e st = (None, st')"
      and w: "written (fs st') = written (fs st) @ (if gets_file E out e then [post_file E out e] else [])"
      using import_post_complete_written[of e E out st] Cons.prems by auto
    have "written (fs (snd (import_posts E out es st'))) =
       written (fs st') @ map (post_file E out) (filter (gets_file E out) (takeWhile complete es))"
      using Cons.IH[of st'] Cons.prems by simp
    with s w True show ?thesis by simp
  next
    case False
    then obtain err st' where "import_post E out e st = (Some err, st')"
      "written (fs st') = written (fs st)"
      using import_post_incomplete[of e E out st] by blast
    with False show ?thesis by simp
  qed
qed

lemma bloggerImport_written_exact:
  assumes "readFile E f = Some d" "parseString E d = Parsed (Some contents)"
    and "filter_posts contents = Some ps"
  shows "written (fs (bloggerImport E f out init)) =
     map (post_file E out) (filter (gets_file E out) (takeWhile complete ps))"
  using bloggerImport_written[OF assms, of out init]
    import_posts_exact[OF filter_posts_ids[OF assms(3)], of E out "before_loop E f out (length ps) init"]
  by (simp add: init_def)

lemma bloggerImport_written_complete:
  assumes "readFile E f = Some d" "parseString E d = Parsed (Some contents)"
    and "filter_posts contents = Some ps" and "list_all complete ps"
  shows "written (fs (bloggerImport E f out init)) =
     map (post_file E out) (filter (gets_file E out) ps)"
proof -
  have "takeWhile complete ps = ps" using assms(4) by (simp add: list_all_iff)
  with bloggerImport_written_exact[OF assms(1-3), of out] show ?thesis by simp
qed

lemma post_file_text:
  "title e = Some t \<Longrightarrow> published e = Some pub \<Longrightarrow>
     post_file E out e = (path_join E out (getFileName E (display_title t) @ str ''.md''),
        file_text E (display_title t) pub (app_draft e = Some (str ''yes'')) e)"
  by (simp add: post_file_def post_name_def post_title_def post_published_def fname_def)

section \<open>The claims\<close>

text \<open>
  C1, as the code has it. For a feed of an entry A with identifier \<open>.post-123\<close> and no
  reply-to reference, an entry B with identifier \<open>.post-456\<close> and a reply-to reference,
  and an entry C with identifier \<open>.page-789\<close>: the filter keeps exactly A, and a summary
  that is written has \<open>totalPosts\<close> 1 (it is written when A has a title and a published
  element and the write succeeds). When the title of A sanitizes to a usable file name
  and the write succeeds, exactly one Markdown file is written, the file of A; when the
  title of A sanitizes to an unusable file name, none is.
\<close>

theorem three_entry_feed:
  assumes "entry_id A = Some (str ''.post-123'')" and "\<not> in_reply_to A"
    and "entry_id B = Some (str ''.post-456'')" and "in_reply_to B"
    and "entry_id C = Some (str ''.page-789'')"
    and "readFile E f = Some d" and "parseString E d = Parsed (Some [A, B, C])"
  shows "filter_posts [A, B, C] = Some [A]
   \<and> is_post A = Some True \<and> is_post B = Some False \<and> is_post C = Some False
   \<and> (summaries (fs (bloggerImport E f out init)) = []
        \<or> summaries (fs (bloggerImport E f out init))
            = [(summary_path E, (str ''{'') @ [nl] @ (str ''  '') @ [dquote] @ (str ''totalPosts'') @ [dquote] @ (str '': 1'') @ [nl] @ (str ''}''))])
   \<and> (complete A \<and> writeFileSync_ok E (summary_path E) \<longrightarrow>
        summaries (fs (bloggerImport E f out init))
            = [(summary_path E, (str ''{'') @ [nl] @ (str ''  '') @ [dquote] @ (str ''totalPosts'') @ [dquote] @ (str '': 1'') @ [nl] @ (str ''}''))])
   \<and> (title A = Some t \<and> published A = Some pub
        \<and> \<not> unusable (getFileName E (display_title t))
        \<and> writeFile_ok E (fname E out (getFileName E (display_title t))) \<longrightarrow>
        written (fs (bloggerImport E f out init))
          = [(fname E out (getFileName E (display_title t)),
              file_text E (display_title t) pub (app_draft A = Some (str ''yes'')) A)])
   \<and> (title A = Some t \<and> unusable (getFileName E (display_title t)) \<longrightarrow>
        written (fs (bloggerImport E f out init)) = [])"
proof -
  have a: "is_post A = Some True" using assms(1,2) by (simp add: is_post_def)
  have b: "is_post B = Some False" using assms(3,4) by (simp add: is_post_def)
  have c: "is_post C = Some False" using assms(5) by (simp add: is_post_def)
  have fp: "filter_posts [A, B, C] = Some [A]" using a b c by simp
  note run = assms(6,7) fp
  let ?st = "before_loop E f out (length [A]) init"
  have w0: "written (fs ?st) = []" by (simp add: init_def)
  have wr: "written (fs (bloggerImport E f out init)) = written (fs (snd (import_post E out A ?st)))"
    using bloggerImport_written[OF run, of out init]
    by (cases "import_post E out A ?st") (auto split: option.splits)
  have s: "summaries (fs (bloggerImport E f out init)) =
       (if fst (import_posts E out [A] ?st) = None \<and> writeFileSync_ok E (summary_path E)
        then [(summary_path E, summary_json 1)] else [])"
    using bloggerImport_summaries[OF run, of out init] by (simp add: init_def)
  have 1: "summaries (fs (bloggerImport E f out init)) = []
        \<or> summaries (fs (bloggerImport E f out init)) = [(summary_path E, summary_json 1)]"
    using s by simp
  have 2: "summaries (fs (bloggerImport E f out init)) = [(summary_path E, summary_json 1)]"
    if "complete A \<and> writeFileSync_ok E (summary_path E)"
  proof -
    have "list_all (\<lambda>e. complete e \<and> entry_id e \<noteq> None) [A]" using that assms(1) by simp
    then have "fst (import_posts E out [A] ?st) = None" by (rule import_posts_complete)
    with s that show ?thesis by simp
  qed
  have 3: "written (fs (bloggerImport E f out init))
          = [(fname E out (getFileName E (display_title t)),
              file_text E (display_title t) pub (app_draft A = Some (str ''yes'')) A)]"
    if "title A = Some t \<and> published A = Some pub
        \<and> \<not> unusable (getFileName E (display_title t))
        \<and> writeFile_ok E (fname E out (getFileName E (display_title t)))"
    using import_post_write[of A t "(str ''.post-123'')" pub E out ?st] that assms(1) wr w0
    by simp
  have 4: "written (fs (bloggerImport E f out init)) = []"
    if "title A = Some t \<and> unusable (getFileName E (display_title t))"
    using import_post_written[of E out A ?st] that wr w0 by auto
  from fp a b c 1 2 3 4 show ?thesis unfolding summary_json_1 by blast
qed

theorem three_entry_feed_witness:
  "written (fs (bloggerImport
       (example_env [example_entry (str ''.post-123'') (str ''Hello''),
                     (example_entry (str ''.post-456'') (str ''Nice''))\<lparr>in_reply_to := True\<rparr>,
                     example_entry (str ''.page-789'') (str ''About'')])
       (str ''backup.xml'') (str ''out'') init))
     = [((str ''out/hello.md''),
         (str ''---'') @ [nl] @ (str ''title: '') @ [apostrophe] @ (str ''Hello'') @ [apostrophe, nl]
         @ (str ''date: 2024-05-06T07:08:09.000Z'') @ [nl] @ (str ''draft: false'') @ [nl] @ (str ''---'') @ [nl, nl])]
   \<and> summaries (fs (bloggerImport
       (example_env [example_entry (str ''.post-123'') (str ''Hello''),
                     (example_entry (str ''.post-456'') (str ''Nice''))\<lparr>in_reply_to := True\<rparr>,
                     example_entry (str ''.page-789'') (str ''About'')])
       (str ''backup.xml'') (str ''out'') init))
     = [((str ''/app/migration-summary.json''),
         (str ''{'') @ [nl] @ (str ''  '') @ [dquote] @ (str ''totalPosts'') @ [dquote] @ (str '': 1'') @ [nl] @ (str ''}''))]
   \<and> filter_posts [example_entry (str ''.post-123'') (str ''Hello''),
                     (example_entry (str ''.post-456'') (str ''Nice''))\<lparr>in_reply_to := True\<rparr>,
                     example_entry (str ''.page-789'') (str ''About'')]
     = Some [example_entry (str ''.post-123'') (str ''Hello'')]"
proof -
  let ?A = "example_entry (str ''.post-123'') (str ''Hello'')"
  let ?B = "(example_entry (str ''.post-456'') (str ''Nice''))\<lparr>in_reply_to := True\<rparr>"
  let ?C = "example_entry (str ''.page-789'') (str ''About'')"
  let ?E = "example_env [?A, ?B, ?C]"
  have h: "entry_id ?A = Some (str ''.post-123'')" "\<not> in_reply_to ?A"
    "entry_id ?B = Some (str ''.post-456'')" "in_reply_to ?B" "entry_id ?C = Some (str ''.page-789'')"
    "readFile ?E (str ''backup.xml'') = Some (str ''<feed/>'')"
    "parseString ?E (str ''<feed/>'') = Parsed (Some [?A, ?B, ?C])"
    by (simp_all add: example_entry_def example_env_def)
  have k: "complete ?A \<and> writeFileSync_ok ?E (summary_path ?E)"
    by (simp add: complete_def example_entry_def example_env_def)
  have sp: "summary_path ?E = (str ''/app/migration-summary.json'')"
    by (simp add: example_env_def summary_path_def)
  have t: "title ?A = Some (Some (str ''Hello'')) \<and> published ?A = Some (str ''2024-05-06T07:08:09.000Z'')
        \<and> \<not> unusable (getFileName ?E (display_title (Some (str ''Hello''))))
        \<and> writeFile_ok ?E (fname ?E (str ''out'') (getFileName ?E (display_title (Some (str ''Hello'')))))"
    by code_simp
  have n: "fname ?E (str ''out'') (getFileName ?E (display_title (Some (str ''Hello'')))) = (str ''out/hello.md'')"
    by code_simp
  have x: "file_text ?E (display_title (Some (str ''Hello''))) (str ''2024-05-06T07:08:09.000Z'') (app_draft ?A = Some (str ''yes'')) ?A
     = (str ''---'') @ [nl] @ (str ''title: '') @ [apostrophe] @ (str ''Hello'') @ [apostrophe, nl]
         @ (str ''date: 2024-05-06T07:08:09.000Z'') @ [nl] @ (str ''draft: false'') @ [nl] @ (str ''---'') @ [nl, nl]"
    by code_simp
  note T = three_entry_feed[OF h, of "(str ''out'')" "Some (str ''Hello'')" "(str ''2024-05-06T07:08:09.000Z'')"]
  from T k have 1: "summaries (fs (bloggerImport ?E (str ''backup.xml'') (str ''out'') init))
            = [(summary_path ?E, (str ''{'') @ [nl] @ (str ''  '') @ [dquote] @ (str ''totalPosts'') @ [dquote] @ (str '': 1'') @ [nl] @ (str ''}''))]"
    by blast
  from T t have 2: "written (fs (bloggerImport ?E (str ''backup.xml'') (str ''out'') init))
          = [(fname ?E (str ''out'') (getFileName ?E (display_title (Some (str ''Hello'')))),
              file_text ?E (display_title (Some (str ''Hello''))) (str ''2024-05-06T07:08:09.000Z'') (app_draft ?A = Some (str ''yes'')) ?A)]"
    by blast
  from T have 3: "filter_posts [?A, ?B, ?C] = Some [?A]" by blast
  from 1 2 3 show ?thesis unfolding sp n x by (intro conjI)
qed

text \<open>
  C1 as the spec states it fails where the title of A sanitizes to an unusable file
  name: with the title \<open>???\<close> the filter keeps A and the summary has \<open>totalPosts\<close> 1, but
  no Markdown file is written.
\<close>

theorem three_entry_feed_counterexample:
  "entry_id (example_entry (str ''.post-123'') (str ''???'')) = Some (str ''.post-123'')
   \<and> \<not> in_reply_to (example_entry (str ''.post-123'') (str ''???''))
   \<and> entry_id ((example_entry (str ''.post-456'') (str ''Nice''))\<lparr>in_reply_to := True\<rparr>) = Some (str ''.post-456'')
   \<and> in_reply_to ((example_entry (str ''.post-456'') (str ''Nice''))\<lparr>in_reply_to := True\<rparr>)
   \<and> entry_id (example_entry (str ''.page-789'') (str ''About'')) = Some (str ''.page-789'')
   \<and> filter_posts [example_entry (str ''.post-123'') (str ''???''),
                     (example_entry (str ''.post-456'') (str ''Nice''))\<lparr>in_reply_to := True\<rparr>,
                     example_entry (str ''.page-789'') (str ''About'')]
       = Some [example_entry (str ''.post-123'') (str ''???'')]
   \<and> written (fs (script
         (example_env [example_entry (str ''.post-123'') (str ''???''),
                       (example_entry (str ''.post-456'') (str ''Nice''))\<lparr>in_reply_to := True\<rparr>,
                       example_entry (str ''.page-789'') (str ''About'')])
         example_argv)) = []
   \<and> length (written (fs (script
         (example_env [example_entry (str ''.post-123'') (str ''???''),
                       (example_entry (str ''.post-456'') (str ''Nice''))\<lparr>in_reply_to := True\<rparr>,
                       example_entry (str ''.page-789'') (str ''About'')])
         example_argv))) \<noteq> 1
   \<and> summaries (fs (script
         (example_env [example_entry (str ''.post-123'') (str ''???''),
                       (example_entry (str ''.post-456'') (str ''Nice''))\<lparr>in_reply_to := True\<rparr>,
                       example_entry (str ''.page-789'') (str ''About'')])
         example_argv))
       = [((str ''/app/migration-summary.json''),
           (str ''{'') @ [nl] @ (str ''  '') @ [dquote] @ (str ''totalPosts'') @ [dquote] @ (str '': 1'') @ [nl] @ (str ''}''))]
   \<and> exit_code (script
         (example_env [example_entry (str ''.post-123'') (str ''???''),
                       (example_entry (str ''.post-456'') (str ''Nice''))\<lparr>in_reply_to := True\<rparr>,
                       example_entry (str ''.page-789'') (str ''About'')])
         example_argv) = None"
  by code_simp






text \<open>
  C4. In a run that reads and filters its feed, the posts are the entries the filter
  keeps, and a summary that is written holds their number as \<open>totalPosts\<close>; it is written
  when every post has a title and a published element and the write succeeds, and then
  the accumulator holds one record for each post. The files written are at most as many
  as the posts with a usable file name, so with a post whose file name is unusable they
  are fewer than \<open>totalPosts\<close>.
\<close>

theorem totalPosts_counts_posts:
  assumes "readFile E f = Some d" and "parseString E d = Parsed (Some contents)"
    and "filter_posts contents = Some ps"
  shows "ps = filter (\<lambda>e. is_post e = Some True) contents
   \<and> (summaries (fs (bloggerImport E f out init)) = []
        \<or> summaries (fs (bloggerImport E f out init)) = [(summary_path E, summary_json (length ps))])
   \<and> (list_all complete ps \<and> writeFileSync_ok E (summary_path E) \<longrightarrow>
        summaries (fs (bloggerImport E f out init)) = [(summary_path E, summary_json (length ps))]
        \<and> length (posts (bloggerImport E f out init)) = length ps)
   \<and> length (written (fs (bloggerImport E f out init))) \<le> length (filter (usable_post E) ps)
   \<and> ((\<exists>e. e \<in> set ps \<and> \<not> usable_post E e) \<longrightarrow>
        length (written (fs (bloggerImport E f out init))) < length ps)"
proof (intro conjI impI)
  show "ps = filter (\<lambda>e. is_post e = Some True) contents"
    using assms(3) by (rule filter_posts_Some)
  show "summaries (fs (bloggerImport E f out init)) = []
        \<or> summaries (fs (bloggerImport E f out init)) = [(summary_path E, summary_json (length ps))]"
    using bloggerImport_summaries[OF assms, of out init] by (simp add: init_def)
  have le: "length (written (fs (bloggerImport E f out init))) \<le> length (filter (usable_post E) ps)"
    using import_posts_written_count[of E out ps "before_loop E f out (length ps) init"]
      bloggerImport_written[OF assms, of out init]
    by (simp add: init_def)
  then show "length (written (fs (bloggerImport E f out init))) \<le> length (filter (usable_post E) ps)" .
  {
    assume "\<exists>e. e \<in> set ps \<and> \<not> usable_post E e"
    then have "length (filter (usable_post E) ps) < length ps"
      using length_filter_less[of _ ps "usable_post E"] by blast
    with le show "length (written (fs (bloggerImport E f out init))) < length ps" by simp
  }
  {
    assume a: "list_all complete ps \<and> writeFileSync_ok E (summary_path E)"
    have "list_all (\<lambda>e. complete e \<and> entry_id e \<noteq> None) ps"
      using a filter_posts_ids[OF assms(3)] by (simp add: list_all_iff)
    then have n: "fst (import_posts E out ps (before_loop E f out (length ps) init)) = None"
      by (rule import_posts_complete)
    show "summaries (fs (bloggerImport E f out init)) = [(summary_path E, summary_json (length ps))]"
      using bloggerImport_summaries[OF assms, of out init] n a by (simp add: init_def)
    show "length (posts (bloggerImport E f out init)) = length ps"
      using bloggerImport_posts[OF assms, of out init]
        import_posts_posts[OF n] by (simp add: init_def)
  }
qed

theorem totalPosts_counts_posts_witness:
  "summaries (fs (bloggerImport
       (example_env [example_entry (str ''blog-1.post-9'') (str ''???''), example_entry (str ''blog-1.post-10'') (str ''Hello'')])
       (str ''backup.xml'') (str ''out'') init))
     = [((str ''/app/migration-summary.json''),
         (str ''{'') @ [nl] @ (str ''  '') @ [dquote] @ (str ''totalPosts'') @ [dquote] @ (str '': 2'') @ [nl] @ (str ''}''))]
   \<and> length (posts (bloggerImport
       (example_env [example_entry (str ''blog-1.post-9'') (str ''???''), example_entry (str ''blog-1.post-10'') (str ''Hello'')])
       (str ''backup.xml'') (str ''out'') init)) = 2
   \<and> length (written (fs (bloggerImport
       (example_env [example_entry (str ''blog-1.post-9'') (str ''???''), example_entry (str ''blog-1.post-10'') (str ''Hello'')])
       (str ''backup.xml'') (str ''out'') init))) < 2
   \<and> map fst (written (fs (bloggerImport
       (example_env [example_entry (str ''blog-1.post-9'') (str ''???''), example_entry (str ''blog-1.post-10'') (str ''Hello'')])
       (str ''backup.xml'') (str ''out'') init))) = [(str ''out/hello.md'')]"
proof -
  let ?a = "example_entry (str ''blog-1.post-9'') (str ''???'')"
  let ?feed = "[?a, example_entry (str ''blog-1.post-10'') (str ''Hello'')]"
  let ?E = "example_env ?feed"
  have r: "readFile ?E (str ''backup.xml'') = Some (str ''<feed/>'')"
    and p: "parseString ?E (str ''<feed/>'') = Parsed (Some ?feed)"
    and o: "writeFileSync_ok ?E (summary_path ?E)"
    and sp: "summary_path ?E = (str ''/app/migration-summary.json'')"
    by (simp_all add: example_env_def summary_path_def)
  have f: "filter_posts ?feed = Some ?feed" by code_simp
  have c: "list_all complete ?feed" by (simp add: complete_def example_entry_def)
  have u: "?a \<in> set ?feed \<and> \<not> usable_post ?E ?a" by code_simp
  have j: "summary_json (length ?feed) = (str ''{'') @ [nl] @ (str ''  '') @ [dquote] @ (str ''totalPosts'') @ [dquote] @ (str '': 2'') @ [nl] @ (str ''}'')"
    by code_simp
  have w: "map fst (written (fs (bloggerImport ?E (str ''backup.xml'') (str ''out'') init))) = [(str ''out/hello.md'')]"
    by code_simp
  note T = totalPosts_counts_posts[OF r p f, of "(str ''out'')"]
  from T c o have 1: "summaries (fs (bloggerImport ?E (str ''backup.xml'') (str ''out'') init))
      = [(summary_path ?E, summary_json (length ?feed))]"
    and 2: "length (posts (bloggerImport ?E (str ''backup.xml'') (str ''out'') init)) = length ?feed"
    by blast+
  from T u have 3: "length (written (fs (bloggerImport ?E (str ''backup.xml'') (str ''out'') init))) < length ?feed"
    by blast
  from 1 2 3 w show ?thesis unfolding sp j by simp
qed



text \<open>
  C6. The display title is \<open>Untitled\<close> when the title has no text (or an empty one, which
  is falsy), and otherwise the title text with every apostrophe doubled: reading the
  doubled apostrophes back gives the title text again, the number of apostrophes doubles,
  and the other characters are the same in the same order. A run writes, in the order of
  the feed, the file of every post that gets one (up to a post without title or published
  element, where the loop throws), and the file of a post begins with the line \<open>---\<close>
  and the line \<open>title: '...'\<close> holding the display title of that post.
\<close>

theorem display_title_quotes:
  assumes "readFile E f = Some d" and "parseString E d = Parsed (Some contents)"
    and "filter_posts contents = Some ps"
  shows "written (fs (bloggerImport E f out init))
       = map (post_file E out) (filter (gets_file E out) (takeWhile complete ps))
   \<and> (list_all complete ps \<longrightarrow>
        written (fs (bloggerImport E f out init))
          = map (post_file E out) (filter (gets_file E out) ps))
   \<and> (title e = Some t \<longrightarrow>
        (\<exists>rest. snd (post_file E out e) =
           str ''---'' @ [nl] @ str ''title: '' @ [apostrophe] @ display_title t @ [apostrophe, nl] @ rest))
   \<and> display_title None = str ''Untitled''
   \<and> display_title (Some []) = str ''Untitled''
   \<and> (s \<noteq> [] \<longrightarrow> display_title (Some s) = replace_quotes s)
   \<and> undouble (replace_quotes s) = s
   \<and> count_apostrophes (replace_quotes s) = 2 * count_apostrophes s
   \<and> filter (\<lambda>c. c \<noteq> apostrophe) (replace_quotes s) = filter (\<lambda>c. c \<noteq> apostrophe) s"
proof -
  have 1: "written (fs (bloggerImport E f out init))
       = map (post_file E out) (filter (gets_file E out) (takeWhile complete ps))"
    using assms by (rule bloggerImport_written_exact)
  have 0: "written (fs (bloggerImport E f out init))
          = map (post_file E out) (filter (gets_file E out) ps)"
    if "list_all complete ps"
    using assms that by (rule bloggerImport_written_complete)
  have 2: "\<exists>rest. snd (post_file E out e) =
           str ''---'' @ [nl] @ str ''title: '' @ [apostrophe] @ display_title t @ [apostrophe, nl] @ rest"
    if "title e = Some t"
    using that file_text_title[of E "display_title t" "post_published e" "app_draft e = Some (str ''yes'')" e]
    by (simp add: post_file_def post_title_def)
  from 0 1 2 show ?thesis
    by (simp add: display_title_def undouble_replace_quotes count_replace_quotes
        others_replace_quotes)
qed

theorem display_title_quotes_witness:
  "display_title (Some (str ''Cat'' @ [apostrophe] @ str ''s Diary''))
     = str ''Cat'' @ [apostrophe, apostrophe] @ str ''s Diary''
   \<and> undouble (str ''Cat'' @ [apostrophe, apostrophe] @ str ''s Diary'')
     = str ''Cat'' @ [apostrophe] @ str ''s Diary''
   \<and> written (fs (bloggerImport
         (example_env [example_entry (str ''blog-1.post-7'') (str ''Cat'' @ [apostrophe] @ str ''s Diary'')])
         (str ''backup.xml'') (str ''out'') init))
     = map (post_file
              (example_env [example_entry (str ''blog-1.post-7'') (str ''Cat'' @ [apostrophe] @ str ''s Diary'')])
              (str ''out''))
         (filter (gets_file
              (example_env [example_entry (str ''blog-1.post-7'') (str ''Cat'' @ [apostrophe] @ str ''s Diary'')])
              (str ''out''))
           (takeWhile complete
              [example_entry (str ''blog-1.post-7'') (str ''Cat'' @ [apostrophe] @ str ''s Diary'')]))
   \<and> written (fs (bloggerImport
         (example_env [example_entry (str ''blog-1.post-7'') (str ''Cat'' @ [apostrophe] @ str ''s Diary'')])
         (str ''backup.xml'') (str ''out'') init))
     = [(str ''out/cat'' @ [apostrophe, apostrophe] @ str ''s diary.md'',
         str ''---'' @ [nl] @ str ''title: '' @ [apostrophe] @ str ''Cat'' @ [apostrophe, apostrophe]
         @ str ''s Diary'' @ [apostrophe, nl] @ str ''date: 2024-05-06T07:08:09.000Z'' @ [nl]
         @ str ''draft: false'' @ [nl] @ str ''---'' @ [nl, nl])]"
proof -
  let ?s = "str ''Cat'' @ [apostrophe] @ str ''s Diary''"
  let ?feed = "[example_entry (str ''blog-1.post-7'') ?s]"
  let ?E = "example_env ?feed"
  have r: "readFile ?E (str ''backup.xml'') = Some (str ''<feed/>'')"
    and p: "parseString ?E (str ''<feed/>'') = Parsed (Some ?feed)"
    by (simp_all add: example_env_def)
  have f: "filter_posts ?feed = Some ?feed" by code_simp
  have w: "written (fs (bloggerImport ?E (str ''backup.xml'') (str ''out'') init))
      = [(str ''out/cat'' @ [apostrophe, apostrophe] @ str ''s diary.md'',
         str ''---'' @ [nl] @ str ''title: '' @ [apostrophe] @ str ''Cat'' @ [apostrophe, apostrophe]
         @ str ''s Diary'' @ [apostrophe, nl] @ str ''date: 2024-05-06T07:08:09.000Z'' @ [nl]
         @ str ''draft: false'' @ [nl] @ str ''---'' @ [nl, nl])]"
    by code_simp
  have n: "?s \<noteq> []" by simp
  have rq: "replace_quotes ?s = str ''Cat'' @ [apostrophe, apostrophe] @ str ''s Diary''" by simp
  note T = display_title_quotes[OF r p f, of "str ''out''" _ _ ?s]
  from T have 1: "written (fs (bloggerImport ?E (str ''backup.xml'') (str ''out'') init))
       = map (post_file ?E (str ''out'')) (filter (gets_file ?E (str ''out'')) (takeWhile complete ?feed))"
    by (rule conjunct1)
  from T n have 2: "display_title (Some ?s) = replace_quotes ?s" by blast
  from T have 3: "undouble (replace_quotes ?s) = ?s" by blast
  show ?thesis
    using 1 2[unfolded rq] 3[unfolded rq] w by (intro conjI)
qed

text \<open>
  C7. A run writes, in the order of the feed, the file of every post that gets one (its
  file name is usable and the write succeeds; up to a post without title or published
  element, where the loop throws). The file of a post is: the line \<open>---\<close>, the line
  \<open>title: '...'\<close> with the display title, the line \<open>date: ...\<close> with the published text as
  it is, the line \<open>draft: true\<close> or \<open>draft: false\<close> (\<open>false\<close> when the draft flag is
  absent), the line of the tags when the post has tags and nothing when it has none, the
  line \<open>---\<close>, an empty line, and the Markdown turndown makes of the content. For a
  post with a missing or empty content that is the Markdown of the empty string, so the
  file ends with the empty line when turndown maps the empty string to itself; whether
  the post gets its file does not depend on its content.
\<close>

theorem written_file_format:
  assumes "readFile E f = Some d" and "parseString E d = Parsed (Some contents)"
    and "filter_posts contents = Some ps"
  shows "written (fs (bloggerImport E f out init))
       = map (post_file E out) (filter (gets_file E out) (takeWhile complete ps))
   \<and> (list_all complete ps \<longrightarrow>
        written (fs (bloggerImport E f out init))
          = map (post_file E out) (filter (gets_file E out) ps))
   \<and> (title e = Some t \<and> published e = Some pub \<longrightarrow>
        post_file E out e =
          (path_join E out (getFileName E (display_title t) @ str ''.md''),
           str ''---'' @ [nl] @ str ''title: '' @ [apostrophe] @ display_title t @ [apostrophe, nl]
           @ str ''date: '' @ pub @ [nl]
           @ str ''draft: '' @ (if app_draft e = Some (str ''yes'') then str ''true'' else str ''false'') @ [nl]
           @ (if extractTags e = [] then []
              else str ''tags: ['' @ join (map (\<lambda>tag. [apostrophe] @ tag @ [apostrophe]) (extractTags e)) (str '', '')
                   @ str '']'' @ [nl])
           @ str ''---'' @ [nl, nl]
           @ turndown E (case content e of None \<Rightarrow> [] | Some h \<Rightarrow> h)))
   \<and> (title e = Some t \<and> published e = Some pub \<and> app_draft e = None
        \<and> (content e = None \<or> content e = Some []) \<and> turndown E [] = [] \<longrightarrow>
        snd (post_file E out e) =
           str ''---'' @ [nl] @ str ''title: '' @ [apostrophe] @ display_title t @ [apostrophe, nl]
           @ str ''date: '' @ pub @ [nl]
           @ str ''draft: false'' @ [nl]
           @ (if extractTags e = [] then []
              else str ''tags: ['' @ join (map (\<lambda>tag. [apostrophe] @ tag @ [apostrophe]) (extractTags e)) (str '', '')
                   @ str '']'' @ [nl])
           @ str ''---'' @ [nl, nl])
   \<and> gets_file E out (e\<lparr>content := body\<rparr>) = gets_file E out e"
proof -
  have 1: "written (fs (bloggerImport E f out init))
       = map (post_file E out) (filter (gets_file E out) (takeWhile complete ps))"
    using assms by (rule bloggerImport_written_exact)
  have 0: "written (fs (bloggerImport E f out init))
          = map (post_file E out) (filter (gets_file E out) ps)"
    if "list_all complete ps"
    using assms that by (rule bloggerImport_written_complete)
  have 2: "post_file E out e =
          (path_join E out (getFileName E (display_title t) @ str ''.md''),
           str ''---'' @ [nl] @ str ''title: '' @ [apostrophe] @ display_title t @ [apostrophe, nl]
           @ str ''date: '' @ pub @ [nl]
           @ str ''draft: '' @ (if app_draft e = Some (str ''yes'') then str ''true'' else str ''false'') @ [nl]
           @ (if extractTags e = [] then []
              else str ''tags: ['' @ join (map (\<lambda>tag. [apostrophe] @ tag @ [apostrophe]) (extractTags e)) (str '', '')
                   @ str '']'' @ [nl])
           @ str ''---'' @ [nl, nl]
           @ turndown E (case content e of None \<Rightarrow> [] | Some h \<Rightarrow> h))"
    if "title e = Some t \<and> published e = Some pub"
    using that post_file_text[of e t pub E out]
    unfolding file_text_format by simp
  have 3: "snd (post_file E out e) =
           str ''---'' @ [nl] @ str ''title: '' @ [apostrophe] @ display_title t @ [apostrophe, nl]
           @ str ''date: '' @ pub @ [nl]
           @ str ''draft: false'' @ [nl]
           @ (if extractTags e = [] then []
              else str ''tags: ['' @ join (map (\<lambda>tag. [apostrophe] @ tag @ [apostrophe]) (extractTags e)) (str '', '')
                   @ str '']'' @ [nl])
           @ str ''---'' @ [nl, nl]"
    if h: "title e = Some t \<and> published e = Some pub \<and> app_draft e = None
        \<and> (content e = None \<or> content e = Some []) \<and> turndown E [] = []"
  proof -
    have "turndown E (case content e of None \<Rightarrow> [] | Some h \<Rightarrow> h) = []" using h by auto
    moreover have "(if app_draft e = Some (str ''yes'') then str ''true'' else str ''false'') = str ''false''"
      using h by simp
    ultimately show ?thesis using 2 h by simp
  qed
  have 4: "gets_file E out (e\<lparr>content := body\<rparr>) = gets_file E out e"
    by (simp add: gets_file_def post_name_def post_title_def)
  from 0 1 2 3 4 show ?thesis by blast
qed

theorem written_file_format_witness:
  "written (fs (bloggerImport (example_env example_feed) (str ''backup.xml'') (str ''out'') init))
     = map (post_file (example_env example_feed) (str ''out''))
         (filter (gets_file (example_env example_feed) (str ''out'')) (takeWhile complete example_feed))
   \<and> written (fs (bloggerImport (example_env example_feed) (str ''backup.xml'') (str ''out'') init))
      = [(str ''out/trip.md'',
          str ''---'' @ [nl] @ str ''title: '' @ [apostrophe] @ str ''Trip'' @ [apostrophe, nl]
          @ str ''date: 2024-05-06T07:08:09.000Z'' @ [nl] @ str ''draft: true'' @ [nl]
          @ str ''tags: ['' @ [apostrophe] @ str ''travel'' @ [apostrophe] @ str '', '' @ [apostrophe]
          @ str ''food'' @ [apostrophe] @ str '']'' @ [nl] @ str ''---'' @ [nl, nl] @ str ''Hello''),
         (str ''out/empty.md'',
          str ''---'' @ [nl] @ str ''title: '' @ [apostrophe] @ str ''Empty'' @ [apostrophe, nl]
          @ str ''date: 2024-05-06T07:08:09.000Z'' @ [nl] @ str ''draft: false'' @ [nl]
          @ str ''---'' @ [nl, nl])]
   \<and> post_file (example_env example_feed) (str ''out'') example_draft
      = (str ''out/trip.md'',
          str ''---'' @ [nl] @ str ''title: '' @ [apostrophe] @ str ''Trip'' @ [apostrophe, nl]
          @ str ''date: 2024-05-06T07:08:09.000Z'' @ [nl] @ str ''draft: true'' @ [nl]
          @ str ''tags: ['' @ [apostrophe] @ str ''travel'' @ [apostrophe] @ str '', '' @ [apostrophe]
          @ str ''food'' @ [apostrophe] @ str '']'' @ [nl] @ str ''---'' @ [nl, nl] @ str ''Hello'')
   \<and> snd (post_file (example_env example_feed) (str ''out'') (example_entry (str ''blog-1.post-8'') (str ''Empty'')))
      = str ''---'' @ [nl] @ str ''title: '' @ [apostrophe] @ str ''Empty'' @ [apostrophe, nl]
          @ str ''date: 2024-05-06T07:08:09.000Z'' @ [nl] @ str ''draft: false'' @ [nl]
          @ str ''---'' @ [nl, nl]"
proof -
  let ?E = "example_env example_feed"
  let ?e = "example_entry (str ''blog-1.post-8'') (str ''Empty'')"
  have r: "readFile ?E (str ''backup.xml'') = Some (str ''<feed/>'')"
    and p: "parseString ?E (str ''<feed/>'') = Parsed (Some example_feed)"
    by (simp_all add: example_env_def)
  have f: "filter_posts example_feed = Some example_feed" by code_simp
  have w: "written (fs (bloggerImport ?E (str ''backup.xml'') (str ''out'') init))
      = [(str ''out/trip.md'',
          str ''---'' @ [nl] @ str ''title: '' @ [apostrophe] @ str ''Trip'' @ [apostrophe, nl]
          @ str ''date: 2024-05-06T07:08:09.000Z'' @ [nl] @ str ''draft: true'' @ [nl]
          @ str ''tags: ['' @ [apostrophe] @ str ''travel'' @ [apostrophe] @ str '', '' @ [apostrophe]
          @ str ''food'' @ [apostrophe] @ str '']'' @ [nl] @ str ''---'' @ [nl, nl] @ str ''Hello''),
         (str ''out/empty.md'',
          str ''---'' @ [nl] @ str ''title: '' @ [apostrophe] @ str ''Empty'' @ [apostrophe, nl]
          @ str ''date: 2024-05-06T07:08:09.000Z'' @ [nl] @ str ''draft: false'' @ [nl]
          @ str ''---'' @ [nl, nl])]"
    by code_simp
  have d: "title example_draft = Some (Some (str ''Trip''))
      \<and> published example_draft = Some (str ''2024-05-06T07:08:09.000Z'')"
    by (simp add: example_draft_def example_entry_def)
  have dv: "(path_join ?E (str ''out'') (getFileName ?E (display_title (Some (str ''Trip''))) @ str ''.md''),
           str ''---'' @ [nl] @ str ''title: '' @ [apostrophe] @ display_title (Some (str ''Trip'')) @ [apostrophe, nl]
           @ str ''date: '' @ str ''2024-05-06T07:08:09.000Z'' @ [nl]
           @ str ''draft: '' @ (if app_draft example_draft = Some (str ''yes'') then str ''true'' else str ''false'') @ [nl]
           @ (if extractTags example_draft = [] then []
              else str ''tags: ['' @ join (map (\<lambda>tag. [apostrophe] @ tag @ [apostrophe]) (extractTags example_draft)) (str '', '')
                   @ str '']'' @ [nl])
           @ str ''---'' @ [nl, nl]
           @ turndown ?E (case content example_draft of None \<Rightarrow> [] | Some h \<Rightarrow> h))
      = (str ''out/trip.md'',
          str ''---'' @ [nl] @ str ''title: '' @ [apostrophe] @ str ''Trip'' @ [apostrophe, nl]
          @ str ''date: 2024-05-06T07:08:09.000Z'' @ [nl] @ str ''draft: true'' @ [nl]
          @ str ''tags: ['' @ [apostrophe] @ str ''travel'' @ [apostrophe] @ str '', '' @ [apostrophe]
          @ str ''food'' @ [apostrophe] @ str '']'' @ [nl] @ str ''---'' @ [nl, nl] @ str ''Hello'')"
    by code_simp
  have e: "title ?e = Some (Some (str ''Empty'')) \<and> published ?e = Some (str ''2024-05-06T07:08:09.000Z'')
      \<and> app_draft ?e = None \<and> (content ?e = None \<or> content ?e = Some []) \<and> turndown ?E [] = []"
    by (simp add: example_entry_def example_env_def)
  have ev: "str ''---'' @ [nl] @ str ''title: '' @ [apostrophe] @ display_title (Some (str ''Empty'')) @ [apostrophe, nl]
           @ str ''date: '' @ str ''2024-05-06T07:08:09.000Z'' @ [nl]
           @ str ''draft: false'' @ [nl]
           @ (if extractTags ?e = [] then []
              else str ''tags: ['' @ join (map (\<lambda>tag. [apostrophe] @ tag @ [apostrophe]) (extractTags ?e)) (str '', '')
                   @ str '']'' @ [nl])
           @ str ''---'' @ [nl, nl]
      = str ''---'' @ [nl] @ str ''title: '' @ [apostrophe] @ str ''Empty'' @ [apostrophe, nl]
          @ str ''date: 2024-05-06T07:08:09.000Z'' @ [nl] @ str ''draft: false'' @ [nl]
          @ str ''---'' @ [nl, nl]"
    by code_simp
  note A = written_file_format[OF r p f, of "str ''out''" example_draft "Some (str ''Trip'')"
      "str ''2024-05-06T07:08:09.000Z''" "None"]
  note B = written_file_format[OF r p f, of "str ''out''" ?e "Some (str ''Empty'')"
      "str ''2024-05-06T07:08:09.000Z''" "None"]
  from A have 1: "written (fs (bloggerImport ?E (str ''backup.xml'') (str ''out'') init))
     = map (post_file ?E (str ''out'')) (filter (gets_file ?E (str ''out'')) (takeWhile complete example_feed))"
    by (rule conjunct1)
  from A d have 2: "post_file ?E (str ''out'') example_draft =
      (path_join ?E (str ''out'') (getFileName ?E (display_title (Some (str ''Trip''))) @ str ''.md''),
           str ''---'' @ [nl] @ str ''title: '' @ [apostrophe] @ display_title (Some (str ''Trip'')) @ [apostrophe, nl]
           @ str ''date: '' @ str ''2024-05-06T07:08:09.000Z'' @ [nl]
           @ str ''draft: '' @ (if app_draft example_draft = Some (str ''yes'') then str ''true'' else str ''false'') @ [nl]
           @ (if extractTags example_draft = [] then []
              else str ''tags: ['' @ join (map (\<lambda>tag. [apostrophe] @ tag @ [apostrophe]) (extractTags example_draft)) (str '', '')
                   @ str '']'' @ [nl])
           @ str ''---'' @ [nl, nl]
           @ turndown ?E (case content example_draft of None \<Rightarrow> [] | Some h \<Rightarrow> h))"
    by blast
  from B e have 3: "snd (post_file ?E (str ''out'') ?e) =
           str ''---'' @ [nl] @ str ''title: '' @ [apostrophe] @ display_title (Some (str ''Empty'')) @ [apostrophe, nl]
           @ str ''date: '' @ str ''2024-05-06T07:08:09.000Z'' @ [nl]
           @ str ''draft: false'' @ [nl]
           @ (if extractTags ?e = [] then []
              else str ''tags: ['' @ join (map (\<lambda>tag. [apostrophe] @ tag @ [apostrophe]) (extractTags ?e)) (str '', '')
                   @ str '']'' @ [nl])
           @ str ''---'' @ [nl, nl]"
    by blast
  show ?thesis
    using 1 w 2[unfolded dv] 3[unfolded ev] by (intro conjI)
qed

text \<open>
  C8. An unusable file name and a failed write of a post's file are handled inside the
  iteration: it throws nothing, prints an error line, leaves the exit status alone, and
  the loop goes on with the posts after it. An unreadable input file, XML the parser
  rejects, and a document without \<open>feed.entry\<close> end the run in the \<open>catch\<close> block: the
  exit status is 1, the error is printed, and neither a post's file nor the summary is
  written.
\<close>

theorem error_handling_levels:
  "(title e = Some t \<and> entry_id e = Some i \<and> published e = Some pub
      \<and> unusable (getFileName E (display_title t)) \<longrightarrow>
      (\<exists>st'. import_post E out e st = (None, st') \<and> fs st' = fs st
           \<and> exit_code st' = exit_code st
           \<and> last (console st') =
               Error ((str ''Invalid filename for title: '') @ display_title t @ (str ''. Skipping post.'')) None
           \<and> import_posts E out (e # es) st = import_posts E out es st'))
   \<and> (title e = Some t \<and> entry_id e = Some i \<and> published e = Some pub
      \<and> \<not> unusable (getFileName E (display_title t))
      \<and> \<not> writeFile_ok E (fname E out (getFileName E (display_title t))) \<longrightarrow>
      (\<exists>st'. import_post E out e st = (None, st') \<and> written (fs st') = written (fs st)
           \<and> exit_code st' = exit_code st
           \<and> last (console st') =
               Error ((str ''Error writing to '') @ fname E out (getFileName E (display_title t)) @ (str '':''))
                 (Some WriteError)
           \<and> import_posts E out (e # es) st = import_posts E out es st'))
   \<and> (readFile E f = None
        \<or> (\<exists>d. readFile E f = Some d \<and> parseString E d = Rejected)
        \<or> (\<exists>d. readFile E f = Some d \<and> parseString E d = Parsed None) \<longrightarrow>
      exit_code (bloggerImport E f out st) = Some 1
      \<and> (\<exists>err. last (console (bloggerImport E f out st)) = Error (str ''Error processing Blogger export:'') (Some err))
      \<and> written (fs (bloggerImport E f out st)) = written (fs st)
      \<and> summaries (fs (bloggerImport E f out st)) = summaries (fs st)
      \<and> posts (bloggerImport E f out st) = posts st)
   \<and> (readFile E f = Some d \<and> parseString E d = Parsed (Some contents)
        \<and> filter_posts contents = Some ps \<and> list_all complete ps
        \<and> writeFileSync_ok E (summary_path E) \<longrightarrow>
      exit_code (bloggerImport E f out init) = None
      \<and> summaries (fs (bloggerImport E f out init)) = [(summary_path E, summary_json (length ps))])"
proof (intro conjI impI)
  assume a: "title e = Some t \<and> entry_id e = Some i \<and> published e = Some pub
      \<and> unusable (getFileName E (display_title t))"
  then obtain st' where "import_post E out e st = (None, st')" "fs st' = fs st"
    "exit_code st' = exit_code st"
    "console st' = console st
                @ [Log ((str ''Sanitized title: '') @ getFileName E (display_title t)),
                   Error ((str ''Invalid filename for title: '') @ display_title t @ (str ''. Skipping post.'')) None]"
    "import_posts E out (e # es) st = import_posts E out es st'"
    using import_posts_skip[of e t i pub E out st es] by blast
  then show "\<exists>st'. import_post E out e st = (None, st') \<and> fs st' = fs st
           \<and> exit_code st' = exit_code st
           \<and> last (console st') =
               Error ((str ''Invalid filename for title: '') @ display_title t @ (str ''. Skipping post.'')) None
           \<and> import_posts E out (e # es) st = import_posts E out es st'"
    by simp
next
  assume a: "title e = Some t \<and> entry_id e = Some i \<and> published e = Some pub
      \<and> \<not> unusable (getFileName E (display_title t))
      \<and> \<not> writeFile_ok E (fname E out (getFileName E (display_title t)))"
  then obtain st' where "import_post E out e st = (None, st')" "written (fs st') = written (fs st)"
    "exit_code st' = exit_code st"
    "console st' = console st
                @ [Log ((str ''Sanitized title: '') @ getFileName E (display_title t)),
                   Error ((str ''Error writing to '') @ fname E out (getFileName E (display_title t)) @ (str '':''))
                     (Some WriteError)]"
    "import_posts E out (e # es) st = import_posts E out es st'"
    using import_posts_write_failure[of e t i pub E out st es] by blast
  then show "\<exists>st'. import_post E out e st = (None, st') \<and> written (fs st') = written (fs st)
           \<and> exit_code st' = exit_code st
           \<and> last (console st') =
               Error ((str ''Error writing to '') @ fname E out (getFileName E (display_title t)) @ (str '':''))
                 (Some WriteError)
           \<and> import_posts E out (e # es) st = import_posts E out es st'"
    by simp
next
  assume a: "readFile E f = None
        \<or> (\<exists>d. readFile E f = Some d \<and> parseString E d = Rejected)
        \<or> (\<exists>d. readFile E f = Some d \<and> parseString E d = Parsed None)"
  then obtain err st' where t: "try_import E f out st = (Some err, st')"
    and s: "written (fs st') = written (fs st)" "summaries (fs st') = summaries (fs st)"
      "posts st' = posts st"
    by (auto simp: try_import_def Let_def written_append summaries_append)
  have b: "bloggerImport E f out st
      = (log (Error (str ''Error processing Blogger export:'') (Some err)) st')\<lparr>exit_code := Some 1\<rparr>"
    using t by (rule bloggerImport_abort)
  show "exit_code (bloggerImport E f out st) = Some 1" by (simp add: b)
  show "\<exists>err. last (console (bloggerImport E f out st)) = Error (str ''Error processing Blogger export:'') (Some err)"
    by (simp add: b)
  show "written (fs (bloggerImport E f out st)) = written (fs st)" by (simp add: b s)
  show "summaries (fs (bloggerImport E f out st)) = summaries (fs st)" by (simp add: b s)
  show "posts (bloggerImport E f out st) = posts st" by (simp add: b s)
next
  assume a: "readFile E f = Some d \<and> parseString E d = Parsed (Some contents)
        \<and> filter_posts contents = Some ps \<and> list_all complete ps
        \<and> writeFileSync_ok E (summary_path E)"
  then have run: "readFile E f = Some d" "parseString E d = Parsed (Some contents)"
    "filter_posts contents = Some ps" by simp_all
  have "list_all (\<lambda>e. complete e \<and> entry_id e \<noteq> None) ps"
    using a filter_posts_ids[of contents ps] by (simp add: list_all_iff)
  then have n: "fst (import_posts E out ps (before_loop E f out (length ps) init)) = None"
    by (rule import_posts_complete)
  show "exit_code (bloggerImport E f out init) = None"
    using bloggerImport_exit[OF run, of out init] n a by (simp add: init_def)
  show "summaries (fs (bloggerImport E f out init)) = [(summary_path E, summary_json (length ps))]"
    using bloggerImport_summaries[OF run, of out init] n a by (simp add: init_def)
qed

theorem error_handling_levels_witness:
  "(\<exists>st'. import_post (example_env []) (str ''out'') (example_entry (str ''blog-1.post-9'') (str ''-'')) init = (None, st')
       \<and> fs st' = fs init \<and> exit_code st' = exit_code init
       \<and> last (console st') = Error ((str ''Invalid filename for title: '') @ display_title (Some (str ''-'')) @ (str ''. Skipping post.'')) None
       \<and> import_posts (example_env []) (str ''out'') (example_entry (str ''blog-1.post-9'') (str ''-'') # []) init
           = import_posts (example_env []) (str ''out'') [] st')
   \<and> (\<exists>st'. import_post ((example_env [])\<lparr>writeFile_ok := (\<lambda>p. False)\<rparr>) (str ''out'')
            (example_entry (str ''blog-1.post-9'') (str ''Hello'')) init = (None, st')
       \<and> written (fs st') = written (fs init) \<and> exit_code st' = exit_code init
       \<and> last (console st') = Error ((str ''Error writing to out/hello.md:'')) (Some WriteError)
       \<and> import_posts ((example_env [])\<lparr>writeFile_ok := (\<lambda>p. False)\<rparr>) (str ''out'')
             (example_entry (str ''blog-1.post-9'') (str ''Hello'') # []) init
           = import_posts ((example_env [])\<lparr>writeFile_ok := (\<lambda>p. False)\<rparr>) (str ''out'') [] st')
   \<and> exit_code (bloggerImport (example_env []) (str ''missing.xml'') (str ''out'') init) = Some 1
   \<and> written (fs (bloggerImport (example_env []) (str ''missing.xml'') (str ''out'') init)) = []
   \<and> summaries (fs (bloggerImport (example_env []) (str ''missing.xml'') (str ''out'') init)) = []
   \<and> exit_code (bloggerImport
         ((example_env [example_entry (str ''blog-1.post-9'') (str ''-''), example_entry (str ''blog-1.post-10'') (str ''Hello'')])
            \<lparr>writeFile_ok := (\<lambda>p. False)\<rparr>) (str ''backup.xml'') (str ''out'') init) = None
   \<and> summaries (fs (bloggerImport
         ((example_env [example_entry (str ''blog-1.post-9'') (str ''-''), example_entry (str ''blog-1.post-10'') (str ''Hello'')])
            \<lparr>writeFile_ok := (\<lambda>p. False)\<rparr>) (str ''backup.xml'') (str ''out'') init))
       = [((str ''/app/migration-summary.json''), (str ''{'') @ [nl] @ (str ''  '') @ [dquote] @ (str ''totalPosts'') @ [dquote] @ (str '': 2'') @ [nl] @ (str ''}''))]"
proof -
  let ?E = "example_env []"
  let ?F = "(example_env [])\<lparr>writeFile_ok := (\<lambda>p. False)\<rparr>"
  let ?feed = "[example_entry (str ''blog-1.post-9'') (str ''-''), example_entry (str ''blog-1.post-10'') (str ''Hello'')]"
  let ?G = "(example_env ?feed)\<lparr>writeFile_ok := (\<lambda>p. False)\<rparr>"
  let ?e = "example_entry (str ''blog-1.post-9'') (str ''-'')"
  let ?h = "example_entry (str ''blog-1.post-9'') (str ''Hello'')"
  have e: "title ?e = Some (Some (str ''-''))" "entry_id ?e = Some (str ''blog-1.post-9'')"
    "published ?e = Some (str ''2024-05-06T07:08:09.000Z'')"
    by (simp_all add: example_entry_def)
  have h: "title ?h = Some (Some (str ''Hello''))" "entry_id ?h = Some (str ''blog-1.post-9'')"
    "published ?h = Some (str ''2024-05-06T07:08:09.000Z'')"
    by (simp_all add: example_entry_def)
  have u: "unusable (getFileName ?E (display_title (Some (str ''-''))))" by code_simp
  have v: "\<not> unusable (getFileName ?F (display_title (Some (str ''Hello''))))" by code_simp
  have w: "\<not> writeFile_ok ?F (fname ?F (str ''out'') (getFileName ?F (display_title (Some (str ''Hello'')))))"
    by simp
  have n: "fname ?F (str ''out'') (getFileName ?F (display_title (Some (str ''Hello'')))) = (str ''out/hello.md'')"
    by code_simp
  have r: "readFile ?E (str ''missing.xml'') = None" by (simp add: example_env_def)
  have g: "readFile ?G (str ''backup.xml'') = Some (str ''<feed/>'')"
    "parseString ?G (str ''<feed/>'') = Parsed (Some ?feed)"
    "writeFileSync_ok ?G (summary_path ?G)"
    by (simp_all add: example_env_def)
  have f: "filter_posts ?feed = Some ?feed" by code_simp
  have c: "list_all complete ?feed" by (simp add: complete_def example_entry_def)
  have p: "summary_path ?G = (str ''/app/migration-summary.json'')" by (simp add: summary_path_def example_env_def)
  have j: "summary_json (length ?feed) = (str ''{'') @ [nl] @ (str ''  '') @ [dquote] @ (str ''totalPosts'') @ [dquote] @ (str '': 2'') @ [nl] @ (str ''}'')"
    by code_simp
  note A = error_handling_levels[of ?e "Some (str ''-'')" "(str ''blog-1.post-9'')" "(str ''2024-05-06T07:08:09.000Z'')"
      ?E "(str ''out'')" init "[]" "(str ''missing.xml'')" "(str ''<feed/>'')" "[]" "[]"]
  note B = error_handling_levels[of ?h "Some (str ''Hello'')" "(str ''blog-1.post-9'')" "(str ''2024-05-06T07:08:09.000Z'')"
      ?F "(str ''out'')" init "[]" "(str ''backup.xml'')" "(str ''<feed/>'')" "[]" "[]"]
  note C = error_handling_levels[of ?e "Some (str ''-'')" "(str ''blog-1.post-9'')" "(str ''2024-05-06T07:08:09.000Z'')"
      ?G "(str ''out'')" init "[]" "(str ''backup.xml'')" "(str ''<feed/>'')" ?feed ?feed]
  have 1: "\<exists>st'. import_post ?E (str ''out'') ?e init = (None, st')
       \<and> fs st' = fs init \<and> exit_code st' = exit_code init
       \<and> last (console st') = Error ((str ''Invalid filename for title: '') @ display_title (Some (str ''-'')) @ (str ''. Skipping post.'')) None
       \<and> import_posts ?E (str ''out'') (?e # []) init = import_posts ?E (str ''out'') [] st'"
    using A e u by blast
  have 2: "\<exists>st'. import_post ?F (str ''out'') ?h init = (None, st')
       \<and> written (fs st') = written (fs init) \<and> exit_code st' = exit_code init
       \<and> last (console st') = Error ((str ''Error writing to '') @ fname ?F (str ''out'') (getFileName ?F (display_title (Some (str ''Hello'')))) @ (str '':'')) (Some WriteError)
       \<and> import_posts ?F (str ''out'') (?h # []) init = import_posts ?F (str ''out'') [] st'"
    using B h v w by blast
  have 3: "exit_code (bloggerImport ?E (str ''missing.xml'') (str ''out'') init) = Some 1
      \<and> written (fs (bloggerImport ?E (str ''missing.xml'') (str ''out'') init)) = written (fs init)
      \<and> summaries (fs (bloggerImport ?E (str ''missing.xml'') (str ''out'') init)) = summaries (fs init)"
    using A r by blast
  have 4: "exit_code (bloggerImport ?G (str ''backup.xml'') (str ''out'') init) = None
      \<and> summaries (fs (bloggerImport ?G (str ''backup.xml'') (str ''out'') init)) = [(summary_path ?G, summary_json (length ?feed))]"
    using C g f c by blast
  from 1 2 3 4 show ?thesis unfolding n p j by (simp add: init_def)
qed

text \<open>
  C9. With fewer than four elements in \<open>process.argv\<close> (fewer than two arguments after
  \<open>node script.js\<close>) the script prints the usage line and exits with status 1; it makes no
  call into the file system and records no post.
\<close>

theorem script_usage:
  "length argv < 4 \<Longrightarrow>
     console (script E argv) = [Log (str ''Usage: node script.js <BACKUP XML> <OUTPUT DIR> [m|s]'')]
     \<and> exit_code (script E argv) = Some 1
     \<and> fs (script E argv) = []
     \<and> posts (script E argv) = []"
  by (simp add: script_def init_def usage_def log_def)

theorem script_usage_witness:
  "length [(str ''node''), (str ''script.js''), (str ''backup.xml'')] < 4
   \<and> console (script (example_env []) [(str ''node''), (str ''script.js''), (str ''backup.xml'')])
        = [Log (str ''Usage: node script.js <BACKUP XML> <OUTPUT DIR> [m|s]'')]
   \<and> exit_code (script (example_env []) [(str ''node''), (str ''script.js''), (str ''backup.xml'')]) = Some 1
   \<and> fs (script (example_env []) [(str ''node''), (str ''script.js''), (str ''backup.xml'')]) = []
   \<and> posts (script (example_env []) [(str ''node''), (str ''script.js''), (str ''backup.xml'')]) = []"
proof -
  have h: "length [(str ''node''), (str ''script.js''), (str ''backup.xml'')] < 4" by simp
  from script_usage[OF h, of "example_env []"] h show ?thesis by simp
qed

text \<open>
  C10, as the code has it. A run writes, in the order of the feed, the file of every post
  that gets one, and the path of a post's file is what \<open>path.join\<close> makes of the output
  directory and \<open>getFileName\<close> of the display title (the title with its apostrophes
  already doubled) followed by \<open>.md\<close>. When the sanitize package keeps the apostrophes
  of the display title (and so does the lower-casing, as it does on ASCII), the base name
  has twice the apostrophes of the title. The title \<open>Cat's Diary\<close> gives \<open>cat''s diary\<close>
  and a post with no title text gives \<open>untitled\<close>, where the package leaves those two
  display titles as they are.
\<close>

theorem filename_from_display_title:
  assumes "readFile E f = Some d" and "parseString E d = Parsed (Some contents)"
    and "filter_posts contents = Some ps"
  shows "written (fs (bloggerImport E f out init))
       = map (post_file E out) (filter (gets_file E out) (takeWhile complete ps))
   \<and> (list_all complete ps \<longrightarrow>
        written (fs (bloggerImport E f out init))
          = map (post_file E out) (filter (gets_file E out) ps))
   \<and> (title e = Some t \<longrightarrow>
        fst (post_file E out e) = path_join E out (getFileName E (display_title t) @ str ''.md''))
   \<and> (s \<noteq> [] \<and> count_apostrophes (sanitize E (replace_quotes s)) = count_apostrophes (replace_quotes s)
        \<and> (is_ascii (sanitize E (replace_quotes s))
            \<or> (\<forall>x. count_apostrophes (unicode_lower E x) = count_apostrophes x)) \<longrightarrow>
        count_apostrophes (getFileName E (display_title (Some s))) = 2 * count_apostrophes s)
   \<and> (sanitize E (str ''Cat'' @ [apostrophe, apostrophe] @ str ''s Diary'')
          = str ''Cat'' @ [apostrophe, apostrophe] @ str ''s Diary'' \<longrightarrow>
        getFileName E (display_title (Some (str ''Cat'' @ [apostrophe] @ str ''s Diary'')))
          = str ''cat'' @ [apostrophe, apostrophe] @ str ''s diary'')
   \<and> (sanitize E (str ''Untitled'') = str ''Untitled'' \<longrightarrow>
        getFileName E (display_title None) = str ''untitled'')"
proof -
  have 1: "written (fs (bloggerImport E f out init))
       = map (post_file E out) (filter (gets_file E out) (takeWhile complete ps))"
    using assms by (rule bloggerImport_written_exact)
  have 0: "written (fs (bloggerImport E f out init))
          = map (post_file E out) (filter (gets_file E out) ps)"
    if "list_all complete ps"
    using assms that by (rule bloggerImport_written_complete)
  have 2: "fst (post_file E out e) = path_join E out (getFileName E (display_title t) @ str ''.md'')"
    if "title e = Some t"
    using that by (simp add: post_file_def post_name_def post_title_def fname_def)
  have 3: "count_apostrophes (getFileName E (display_title (Some s))) = 2 * count_apostrophes s"
    if h: "s \<noteq> [] \<and> count_apostrophes (sanitize E (replace_quotes s)) = count_apostrophes (replace_quotes s)
        \<and> (is_ascii (sanitize E (replace_quotes s))
            \<or> (\<forall>x. count_apostrophes (unicode_lower E x) = count_apostrophes x))"
  proof -
    define x where "x = trim (replace_hyphens (replace_invalid (sanitize E (replace_quotes s))))"
    have dt: "display_title (Some s) = replace_quotes s" using h by (simp add: display_title_def)
    have cx: "count_apostrophes x = 2 * count_apostrophes s"
      using h by (simp add: x_def count_cleaned count_replace_quotes)
    have "count_apostrophes (toLowerCase E x) = count_apostrophes x"
    proof (cases "is_ascii x")
      case True
      then show ?thesis by (simp add: toLowerCase_ascii count_map_ascii_lower)
    next
      case False
      then have "\<not> is_ascii (sanitize E (replace_quotes s))"
        using cleaned_ascii[of "sanitize E (replace_quotes s)"] by (auto simp: x_def)
      with h have "\<forall>x. count_apostrophes (unicode_lower E x) = count_apostrophes x" by blast
      with False show ?thesis by (simp add: toLowerCase_def)
    qed
    with cx show ?thesis by (simp add: dt getFileName_def x_def)
  qed
  have 4: "getFileName E (display_title (Some (str ''Cat'' @ [apostrophe] @ str ''s Diary'')))
          = str ''cat'' @ [apostrophe, apostrophe] @ str ''s diary''"
    if h: "sanitize E (str ''Cat'' @ [apostrophe, apostrophe] @ str ''s Diary'')
          = str ''Cat'' @ [apostrophe, apostrophe] @ str ''s Diary''"
  proof -
    have dt: "display_title (Some (str ''Cat'' @ [apostrophe] @ str ''s Diary''))
        = str ''Cat'' @ [apostrophe, apostrophe] @ str ''s Diary''"
      by code_simp
    have c: "map ascii_lower (trim (replace_hyphens (replace_invalid (str ''Cat'' @ [apostrophe, apostrophe] @ str ''s Diary''))))
        = str ''cat'' @ [apostrophe, apostrophe] @ str ''s diary''"
      by code_simp
    have a: "is_ascii (trim (replace_hyphens (replace_invalid (str ''Cat'' @ [apostrophe, apostrophe] @ str ''s Diary''))))"
      by code_simp
    show ?thesis
      unfolding dt getFileName_def h toLowerCase_ascii[OF a] by (rule c)
  qed
  have 5: "getFileName E (display_title None) = str ''untitled''"
    if h: "sanitize E (str ''Untitled'') = str ''Untitled''"
  proof -
    have dt: "display_title None = str ''Untitled''" by (simp add: display_title_def)
    have c: "map ascii_lower (trim (replace_hyphens (replace_invalid (str ''Untitled'')))) = str ''untitled''"
      by code_simp
    have a: "is_ascii (trim (replace_hyphens (replace_invalid (str ''Untitled''))))"
      by code_simp
    show ?thesis
      unfolding dt getFileName_def h toLowerCase_ascii[OF a] by (rule c)
  qed
  from 0 1 2 3 4 5 show ?thesis by blast
qed

theorem filename_from_display_title_witness:
  "written (fs (bloggerImport
       (example_env [example_entry (str ''blog-1.post-7'') (str ''Cat'' @ [apostrophe] @ str ''s Diary''),
                     (example_entry (str ''blog-1.post-8'') [])\<lparr>title := Some None\<rparr>])
       (str ''backup.xml'') (str ''out'') init))
     = map (post_file
              (example_env [example_entry (str ''blog-1.post-7'') (str ''Cat'' @ [apostrophe] @ str ''s Diary''),
                            (example_entry (str ''blog-1.post-8'') [])\<lparr>title := Some None\<rparr>])
              (str ''out''))
         (filter (gets_file
              (example_env [example_entry (str ''blog-1.post-7'') (str ''Cat'' @ [apostrophe] @ str ''s Diary''),
                            (example_entry (str ''blog-1.post-8'') [])\<lparr>title := Some None\<rparr>])
              (str ''out''))
           (takeWhile complete
              [example_entry (str ''blog-1.post-7'') (str ''Cat'' @ [apostrophe] @ str ''s Diary''),
               (example_entry (str ''blog-1.post-8'') [])\<lparr>title := Some None\<rparr>]))
   \<and> map fst (written (fs (bloggerImport
       (example_env [example_entry (str ''blog-1.post-7'') (str ''Cat'' @ [apostrophe] @ str ''s Diary''),
                     (example_entry (str ''blog-1.post-8'') [])\<lparr>title := Some None\<rparr>])
       (str ''backup.xml'') (str ''out'') init)))
     = [str ''out/cat'' @ [apostrophe, apostrophe] @ str ''s diary.md'', str ''out/untitled.md'']
   \<and> count_apostrophes (getFileName (example_env []) (display_title (Some (str ''Cat'' @ [apostrophe] @ str ''s Diary''))))
     = 2 * count_apostrophes (str ''Cat'' @ [apostrophe] @ str ''s Diary'')
   \<and> getFileName (example_env []) (display_title (Some (str ''Cat'' @ [apostrophe] @ str ''s Diary'')))
     = str ''cat'' @ [apostrophe, apostrophe] @ str ''s diary''
   \<and> getFileName (example_env []) (display_title None) = str ''untitled''"
proof -
  let ?s = "str ''Cat'' @ [apostrophe] @ str ''s Diary''"
  let ?feed = "[example_entry (str ''blog-1.post-7'') ?s,
                (example_entry (str ''blog-1.post-8'') [])\<lparr>title := Some None\<rparr>]"
  let ?E = "example_env ?feed"
  let ?N = "example_env []"
  have r: "readFile ?E (str ''backup.xml'') = Some (str ''<feed/>'')"
    and p: "parseString ?E (str ''<feed/>'') = Parsed (Some ?feed)"
    by (simp_all add: example_env_def)
  have f: "filter_posts ?feed = Some ?feed" by code_simp
  have rn: "readFile ?N (str ''backup.xml'') = Some (str ''<feed/>'')"
    and pn: "parseString ?N (str ''<feed/>'') = Parsed (Some [])"
    and fn: "filter_posts [] = Some []"
    by (simp_all add: example_env_def)
  have w: "map fst (written (fs (bloggerImport ?E (str ''backup.xml'') (str ''out'') init)))
      = [str ''out/cat'' @ [apostrophe, apostrophe] @ str ''s diary.md'', str ''out/untitled.md'']"
    by code_simp
  have h: "?s \<noteq> [] \<and> count_apostrophes (sanitize ?N (replace_quotes ?s)) = count_apostrophes (replace_quotes ?s)
        \<and> (is_ascii (sanitize ?N (replace_quotes ?s))
            \<or> (\<forall>x. count_apostrophes (unicode_lower ?N x) = count_apostrophes x))"
    by (simp add: example_env_def count_map_ascii_lower) code_simp
  have c: "sanitize ?N (str ''Cat'' @ [apostrophe, apostrophe] @ str ''s Diary'')
          = str ''Cat'' @ [apostrophe, apostrophe] @ str ''s Diary''"
    by code_simp
  have u: "sanitize ?N (str ''Untitled'') = str ''Untitled''" by code_simp
  note T = filename_from_display_title[OF r p f, of "str ''out''"]
  note U = filename_from_display_title[OF rn pn fn, of "str ''out''" _ _ ?s]
  from T have 1: "written (fs (bloggerImport ?E (str ''backup.xml'') (str ''out'') init))
       = map (post_file ?E (str ''out'')) (filter (gets_file ?E (str ''out'')) (takeWhile complete ?feed))"
    by (rule conjunct1)
  from U h have 2: "count_apostrophes (getFileName ?N (display_title (Some ?s))) = 2 * count_apostrophes ?s"
    by blast
  from U c have 3: "getFileName ?N (display_title (Some ?s)) = str ''cat'' @ [apostrophe, apostrophe] @ str ''s diary''"
    by blast
  from U u have 4: "getFileName ?N (display_title None) = str ''untitled''" by blast
  show ?thesis using 1 w 2 3 4 by (intro conjI)
qed

text \<open>
  C10 as the spec states it fails for a title whose apostrophe the sanitize package
  cuts off: for the title of 255 letters \<open>a\<close> and an apostrophe the display title has two
  apostrophes at its end, the package returns the 255 letters, and the base name has no
  apostrophe.
\<close>

theorem filename_from_display_title_counterexample:
  "count_apostrophes long_title = 1
   \<and> count_apostrophes (display_title (Some long_title)) = 2
   \<and> getFileName (truncating_env []) (display_title (Some long_title)) = replicate 255 0x61
   \<and> count_apostrophes (getFileName (truncating_env []) (display_title (Some long_title))) = 0"
  by code_simp

end
